theory Spec2Isabelle
  imports Main "HOL-Library.AList"
begin

section \<open>Bytes, errors and the buffered reader\<close>

text \<open>
  Go byte slices and strings are modelled as \<open>string\<close> (a list of 8-bit characters).
  An \<open>os.Error\<close> result is an \<open>error option\<close> (\<open>None\<close> is \<open>nil\<close>).  A run-time
  panic of the Go code (index out of range, nil dereference, an explicit \<open>panic\<close>) is
  the value \<open>Panic msg\<close>: it is not an error value of the program but the end of the
  goroutine, and the model stops there.
\<close>

datatype error =
    EOF
  | ErrBufferFull
  | ErrShortWrite
  | ErrNet
  | ErrResponseBodyClosed
  | ErrResponseStarted
  | ErrSyntax
  | ErrRange
  | ErrorString string
  | Panic string

definition LF :: char where "LF = CHR 0x0A"
definition CR :: char where "CR = CHR 0x0D"
definition HT :: char where "HT = CHR 0x09"
definition CRLF :: string where "CRLF = [CR, LF]"

text \<open>
  Modelled from the spec: \<open>web.IsSpaceByte\<close> is not under src/.  The spec speaks of
  "a space or tab" and of whitespace trimming; carriage return and line feed are
  whitespace as well, since \<open>readStatusLine\<close> relies on \<open>trimWSRight\<close> to drop the
  line terminator before the request line is matched (test TestSimple).
\<close>
definition IsSpaceByte :: "char \<Rightarrow> bool" where
  "IsSpaceByte c = (c = CHR '' '' \<or> c = HT \<or> c = CR \<or> c = LF)"

text \<open>
  Modelled from the spec: \<open>web.IsTokenByte\<close> is not under src/.  "Characters valid per
  HTTP token syntax": a 7-bit character that is neither a control character nor a
  separator.
\<close>
definition IsTokenByte :: "char \<Rightarrow> bool" where
  "IsTokenByte c =
     (let n = of_char c :: nat in
      32 < n \<and> n < 127 \<and> c \<notin> set (''(),/:;<=>?@[]{}'' @ [CHR 0x22, CHR 0x5C]))"

definition upperByte :: "char \<Rightarrow> char" where
  "upperByte c =
     (let n = of_char c :: nat in if 97 \<le> n \<and> n \<le> 122 then char_of (n - 32) else c)"

definition lowerByte :: "char \<Rightarrow> char" where
  "lowerByte c =
     (let n = of_char c :: nat in if 65 \<le> n \<and> n \<le> 90 then char_of (n + 32) else c)"

text \<open>
  Modelled from the spec: \<open>web.HeaderNameBytes\<close> is not under src/.  "The key is
  canonicalized before storage": the first letter and every letter after a hyphen in
  upper case, the other letters in lower case (\<open>Content-Type\<close>, \<open>Cookie\<close>).
\<close>
fun canonBytes :: "bool \<Rightarrow> string \<Rightarrow> string" where
  "canonBytes up [] = []"
| "canonBytes up (c # cs) =
     (if up then upperByte c else lowerByte c) # canonBytes (c = CHR ''-'') cs"

definition HeaderNameBytes :: "string \<Rightarrow> string" where
  "HeaderNameBytes p = canonBytes True p"

text \<open>\<open>skipBytes\<close>, \<open>trimWSLeft\<close> and \<open>trimWSRight\<close> of the server package.\<close>

definition skipBytes :: "string \<Rightarrow> (char \<Rightarrow> bool) \<Rightarrow> nat" where
  "skipBytes p f = length (takeWhile f p)"

definition trimWSLeft :: "string \<Rightarrow> string" where
  "trimWSLeft p = drop (skipBytes p IsSpaceByte) p"

definition trimWSRight :: "string \<Rightarrow> string" where
  "trimWSRight p = rev (dropWhile IsSpaceByte (rev p))"

text \<open>
  \<open>web.StringsMap\<close> is a Go map from header name to a slice of values.  It is an
  association list with distinct keys here; \<open>range\<close> over the map visits the entries in
  list order (Go leaves the order open).

  Modelled from the spec: the methods \<open>Get\<close>, \<open>Set\<close> and \<open>Append\<close> of \<open>web.StringsMap\<close>
  are not under src/.  "Mapping from a canonical header name to an ordered sequence of
  string values": \<open>Get\<close> yields the first value of a key, \<open>Set\<close> replaces the values of
  a key by one value, \<open>Append\<close> adds a value after the values the key has.
\<close>
type_synonym StringsMap = "(string \<times> string list) list"

definition index :: "StringsMap \<Rightarrow> string \<Rightarrow> string list" where
  "index m k = (case map_of m k of None \<Rightarrow> [] | Some vs \<Rightarrow> vs)"

definition found :: "StringsMap \<Rightarrow> string \<Rightarrow> bool" where
  "found m k = (map_of m k \<noteq> None)"

definition Get :: "StringsMap \<Rightarrow> string \<Rightarrow> string option" where
  "Get m k = (case index m k of [] \<Rightarrow> None | v # _ \<Rightarrow> Some v)"

definition Set :: "StringsMap \<Rightarrow> string \<Rightarrow> string \<Rightarrow> StringsMap" where
  "Set m k v = AList.update k [v] m"

definition Append :: "StringsMap \<Rightarrow> string \<Rightarrow> string \<Rightarrow> StringsMap" where
  "Append m k v = AList.update k (index m k @ [v]) m"

text \<open>
  \<open>bufio.Reader\<close> (Go library) over the bytes the peer sends: \<open>pending\<close> are the bytes
  not yet consumed, \<open>rsize\<close> is the capacity of the buffer.  \<open>ReadSlice\<close> returns the
  bytes up to and including the first line feed; it fails with \<open>ErrBufferFull\<close> when
  the buffer fills before a line feed is seen and with \<open>EOF\<close> when the stream ends
  first.
\<close>
record Reader =
  rsize :: nat
  pending :: string

definition ReadSlice :: "Reader \<Rightarrow> (error + string) \<times> Reader" where
  "ReadSlice b =
     (let s = pending b; n = length (takeWhile (\<lambda>c. c \<noteq> LF) s) in
      if n < length s then
        (if n < rsize b then (Inr (take (Suc n) s), b\<lparr>pending := drop (Suc n) s\<rparr>)
         else (Inl ErrBufferFull, b))
      else if rsize b \<le> length s then (Inl ErrBufferFull, b)
      else (Inl EOF, b\<lparr>pending := []\<rparr>))"

section \<open>Header parsing\<close>

definition maxLineSize :: nat where "maxLineSize = 4096"
definition maxValueSize :: nat where "maxValueSize = 4096"
definition maxHeaderCount :: nat where "maxHeaderCount = 256"

text \<open>"remove line terminator" of \<open>readHeaders\<close>: CR LF, or the last byte.\<close>
definition chomp :: "string \<Rightarrow> string" where
  "chomp p =
     (if 2 \<le> length p \<and> p ! (length p - 2) = CR then take (length p - 2) p
      else take (length p - 1) p)"

text \<open>
  The body of the loop of \<open>readHeaders\<close> for one line \<open>p0\<close> that \<open>ReadSlice\<close> returned:
  \<open>Inl r\<close> leaves the loop (\<open>None\<close> at the empty line, \<open>Some err\<close> at a \<open>return err\<close>),
  \<open>Inr\<close> goes round again with the new \<open>lastKey\<close>, \<open>headerCount\<close> and header map.
\<close>
definition headerLine ::
  "string \<Rightarrow> string \<Rightarrow> nat \<Rightarrow> StringsMap \<Rightarrow> error option + (string \<times> nat \<times> StringsMap)" where
  "headerLine p0 lastKey headerCount header =
     (let p = chomp p0 in
      if length p = 0 then Inl None
      else if maxLineSize < length p then Inl (Some (ErrorString ''header line too long''))
      else if IsSpaceByte (p ! 0) then
        (if lastKey = [] then
           Inl (Some (ErrorString ''header continuation before first header''))
         else
           (let q = trimWSLeft (trimWSRight p) in
            if 0 < length q then
              (let values = index header lastKey in
               if values = [] then Inl (Some (Panic ''index out of range''))
               else
                 (let value = last values @ '' '' @ q in
                  if maxValueSize < length value then
                    Inl (Some (ErrorString ''header value too long''))
                  else
                    Inr (lastKey, headerCount,
                         AList.update lastKey (butlast values @ [value]) header)))
            else Inr (lastKey, headerCount, header)))
      else
        (let headerCount' = headerCount + 1 in
         if maxHeaderCount < headerCount' then Inl (Some (ErrorString ''too many headers''))
         else
           (let i = skipBytes p IsTokenByte in
            if i < 1 then Inl (Some (ErrorString ''missing header key''))
            else
              (let key = HeaderNameBytes (take i p);
                   p1 = trimWSLeft (drop i p) in
               if p1 = [] then Inl (Some (Panic ''index out of range''))
               else if p1 ! 0 \<noteq> CHR '':'' then Inl (Some (ErrorString ''header missing :''))
               else
                 (let value = trimWSRight (trimWSLeft (drop 1 p1)) in
                  Inr (key, headerCount', Append header key value))))))"

text \<open>
  The loop of \<open>readHeaders\<close>.  The header map is a Go reference: what the loop stored
  before it failed stays in the caller's map, so the map is returned beside the error.
\<close>
function readHeaders_loop ::
  "Reader \<Rightarrow> string \<Rightarrow> nat \<Rightarrow> StringsMap \<Rightarrow> error option \<times> StringsMap \<times> Reader" where
  "readHeaders_loop b lastKey headerCount header =
     (case ReadSlice b of
        (Inl err, b') \<Rightarrow> (Some err, header, b')
      | (Inr p0, b') \<Rightarrow>
          (case headerLine p0 lastKey headerCount header of
             Inl r \<Rightarrow> (r, header, b')
           | Inr (lastKey', headerCount', header') \<Rightarrow>
               readHeaders_loop b' lastKey' headerCount' header'))"
  by pat_completeness auto
termination
  by (relation "measure (\<lambda>(b, lastKey, headerCount, header). length (pending b))")
     (auto simp: ReadSlice_def Let_def split: if_splits)

declare readHeaders_loop.simps [simp del]

definition readHeaders :: "Reader \<Rightarrow> StringsMap \<Rightarrow> error option \<times> StringsMap \<times> Reader" where
  "readHeaders b header = readHeaders_loop b [] 0 header"

section \<open>Numbers and constants\<close>

text \<open>
  \<open>strconv.Itoa\<close>, \<open>strconv.Itob(n, 16)\<close> and \<open>strconv.Atoi\<close> (Go library).  \<open>Atoi\<close>
  returns 0 with a syntax error for a string that is not an optionally signed
  decimal number, and the nearest bound with a range error for a number outside the
  range of \<open>int\<close> (32 bits in the Go release this code is written for).
\<close>

definition digitByte :: "nat \<Rightarrow> char" where
  "digitByte d = (if d < 10 then char_of (48 + d) else char_of (87 + d))"

function digits :: "nat \<Rightarrow> nat \<Rightarrow> string" where
  "digits base n =
     (if base < 2 \<or> n < base then [digitByte n]
      else digits base (n div base) @ [digitByte (n mod base)])"
  by pat_completeness auto
termination
  by (relation "measure (\<lambda>(base, n). n)") auto

declare digits.simps [simp del]

definition Itoa :: "int \<Rightarrow> string" where
  "Itoa i = (if i < 0 then CHR ''-'' # digits 10 (nat (- i)) else digits 10 (nat i))"

definition Itob16 :: "nat \<Rightarrow> string" where
  "Itob16 n = digits 16 n"

definition isDigit :: "char \<Rightarrow> bool" where
  "isDigit c = (let n = of_char c :: nat in 48 \<le> n \<and> n \<le> 57)"

definition decimal :: "string \<Rightarrow> nat" where
  "decimal s = foldl (\<lambda>a c. 10 * a + (of_char c - 48)) 0 s"

definition IntSize :: nat where "IntSize = 32"

definition Atoi :: "string \<Rightarrow> int \<times> error option" where
  "Atoi s =
     (let neg = (s \<noteq> [] \<and> hd s = CHR ''-'');
          ds = (if s \<noteq> [] \<and> (hd s = CHR ''+'' \<or> hd s = CHR ''-'') then tl s else s)
      in if ds = [] \<or> \<not> list_all isDigit ds then (0, Some ErrSyntax)
         else
           (let v = (if neg then - int (decimal ds) else int (decimal ds)) in
            if v < - (2 ^ (IntSize - 1)) then (- (2 ^ (IntSize - 1)), Some ErrRange)
            else if 2 ^ (IntSize - 1) - 1 < v then (2 ^ (IntSize - 1) - 1, Some ErrRange)
            else (v, None)))"

text \<open>
  Modelled from the spec: the constants and the status-text table of package \<open>web\<close>
  are not under src/.  The header names and status codes are those of HTTP; the table
  holds the reason phrases the spec names.
\<close>
definition HeaderConnection :: string where "HeaderConnection = ''Connection''"
definition HeaderContentLength :: string where "HeaderContentLength = ''Content-Length''"
definition HeaderContentType :: string where "HeaderContentType = ''Content-Type''"
definition HeaderExpect :: string where "HeaderExpect = ''Expect''"
definition HeaderTransferEncoding :: string where
  "HeaderTransferEncoding = ''Transfer-Encoding''"

definition StatusOK :: int where "StatusOK = 200"
definition StatusNotModified :: int where "StatusNotModified = 304"
definition StatusNotFound :: int where "StatusNotFound = 404"
definition StatusMethodNotAllowed :: int where "StatusMethodNotAllowed = 405"

definition StatusText :: "int \<Rightarrow> string option" where
  "StatusText status =
     map_of [(100, ''Continue''), (200, ''OK''), (304, ''Not Modified''),
             (404, ''Not Found''), (405, ''Method Not Allowed'')] status"

text \<open>
  \<open>strings.ToLower\<close> (Go library), on the bytes of 7-bit letters.
\<close>
definition ToLower :: "string \<Rightarrow> string" where
  "ToLower s = map lowerByte s"

definition ToUpper :: "string \<Rightarrow> string" where
  "ToUpper s = map upperByte s"

section \<open>The connection\<close>

text \<open>
  \<open>net.Conn\<close>, the stream to the peer: \<open>incoming\<close> are the bytes the peer sends,
  \<open>sent\<close> the bytes written to it so far.  A write fails once the peer has taken
  \<open>budget\<close> more bytes (\<open>None\<close>: it never fails); the failing write reports the bytes
  it did pass on, with the error \<open>ErrNet\<close>.
\<close>
record NetConn =
  incoming :: string
  sent :: string
  budget :: "nat option"
  closed :: bool

definition net_Write :: "NetConn \<Rightarrow> string \<Rightarrow> nat \<times> error option \<times> NetConn" where
  "net_Write nc p =
     (case budget nc of
        None \<Rightarrow> (length p, None, nc\<lparr>sent := sent nc @ p\<rparr>)
      | Some k \<Rightarrow>
          if length p \<le> k then
            (length p, None, nc\<lparr>sent := sent nc @ p, budget := Some (k - length p)\<rparr>)
          else (k, Some ErrNet, nc\<lparr>sent := sent nc @ take k p, budget := Some 0\<rparr>))"

definition net_Close :: "NetConn \<Rightarrow> NetConn" where
  "net_Close nc = nc\<lparr>closed := True\<rparr>"

text \<open>
  \<open>bufio.Reader.Read\<close> (Go library): up to \<open>k\<close> bytes of the stream, \<open>EOF\<close> when the
  stream ends before \<open>k\<close> bytes came.
\<close>
definition Reader_Read :: "Reader \<Rightarrow> nat \<Rightarrow> string \<times> error option \<times> Reader" where
  "Reader_Read b k =
     (if k = 0 then ([], None, b)
      else (take k (pending b),
            (if length (pending b) < k then Some EOF else None),
            b\<lparr>pending := drop k (pending b)\<rparr>))"

datatype wkind = identityW | chunkedW

text \<open>
  \<open>bufio.Writer\<close> (Go library): the writer behind it (\<open>identityWriter\<close> or
  \<open>chunkedWriter\<close> of the same connection), the bytes buffered, and its latched error.
\<close>
record Writer =
  wr :: wkind
  wbuf :: string
  werr :: "error option"

definition defaultBufSize :: nat where "defaultBufSize = 4096"

record 'u Request =
  Method :: string
  URL :: "'u option"
  ProtocolMajor :: int
  ProtocolMinor :: int
  Header :: StringsMap
  ContentLength :: int

text \<open>
  \<open>conn\<close>.  The fields \<open>netConn\<close> and \<open>br\<close> are Go references to objects that outlive
  the \<open>conn\<close> (the loop of \<open>serveConnection\<close> holds them): the objects are the fields
  \<open>netConn\<close> and \<open>br\<close> here, and \<open>netConn_nil\<close> and \<open>br_nil\<close> say that \<open>finish\<close> has set
  the reference to \<open>nil\<close>.
\<close>
record 'u conn =
  atLeastHttp11 :: bool
  br :: Reader
  br_nil :: bool
  bw :: "Writer option"
  chunked :: bool
  closeAfterResponse :: bool
  hijacked :: bool
  netConn :: NetConn
  netConn_nil :: bool
  req :: "'u Request"
  requestAvail :: int
  requestErr :: "error option"
  respondCalled :: bool
  responseAvail :: int
  responseErr :: "error option"
  write100Continue :: bool

definition NewRequest :: "'u Request" where
  "NewRequest = \<lparr>Method = [], URL = None, ProtocolMajor = 0, ProtocolMinor = 0,
     Header = [], ContentLength = 0\<rparr>"

text \<open>The struct literal \<open>conn{netConn: netConn, br: br}\<close> of \<open>serveConnection\<close>.\<close>
definition newConn :: "NetConn \<Rightarrow> Reader \<Rightarrow> 'u conn" where
  "newConn nc b =
     \<lparr>atLeastHttp11 = False, br = b, br_nil = False, bw = None, chunked = False,
      closeAfterResponse = False, hijacked = False, netConn = nc, netConn_nil = False,
      req = NewRequest, requestAvail = 0, requestErr = None, respondCalled = False,
      responseAvail = 0, responseErr = None, write100Continue = False\<rparr>"

text \<open>
  A write through the reference \<open>c.netConn\<close>: a nil dereference once \<open>finish\<close> has
  cleared the reference.
\<close>
definition netConn_Write :: "'u conn \<Rightarrow> string \<Rightarrow> nat \<times> error option \<times> NetConn" where
  "netConn_Write c p =
     (if netConn_nil c then (0, Some (Panic ''nil pointer dereference''), netConn c)
      else net_Write (netConn c) p)"

text \<open>\<open>identityWriter.Write\<close> and \<open>chunkedWriter.Write\<close>.\<close>

definition identityWriter_Write :: "'u conn \<Rightarrow> string \<Rightarrow> nat \<times> error option \<times> 'u conn" where
  "identityWriter_Write c p =
     (if responseErr c \<noteq> None then (0, responseErr c, c)
      else
        (case netConn_Write c p of
           (n, e, nc) \<Rightarrow>
             (n, e, c\<lparr>netConn := nc, responseErr := e,
                      responseAvail := responseAvail c - int n\<rparr>)))"

definition chunkedWriter_Write :: "'u conn \<Rightarrow> string \<Rightarrow> nat \<times> error option \<times> 'u conn" where
  "chunkedWriter_Write c p =
     (if responseErr c \<noteq> None then (0, responseErr c, c)
      else if length p = 0 then (0, None, c)
      else
        (case netConn_Write c (Itob16 (length p) @ CRLF) of
           (_, e1, nc1) \<Rightarrow>
             (let c1 = c\<lparr>netConn := nc1, responseErr := e1\<rparr> in
              if responseErr c1 \<noteq> None then (0, responseErr c1, c1)
              else
                (case netConn_Write c1 p of
                   (n, e2, nc2) \<Rightarrow>
                     (let c2 = c1\<lparr>netConn := nc2, responseErr := e2\<rparr> in
                      if responseErr c2 \<noteq> None then (n, responseErr c2, c2)
                      else
                        (case netConn_Write c2 CRLF of
                           (_, e3, nc3) \<Rightarrow>
                             (0, e3, c2\<lparr>netConn := nc3, responseErr := e3\<rparr>)))))))"

definition wr_Write :: "wkind \<Rightarrow> 'u conn \<Rightarrow> string \<Rightarrow> nat \<times> error option \<times> 'u conn" where
  "wr_Write k c p =
     (case k of identityW \<Rightarrow> identityWriter_Write c p | chunkedW \<Rightarrow> chunkedWriter_Write c p)"

text \<open>
  \<open>bufio.Writer.Flush\<close>, \<open>Available\<close> and \<open>Write\<close> (Go library).  \<open>Flush\<close> hands the
  buffered bytes to the writer behind the buffer; when that writer reports fewer
  bytes than it was given and no error, the error is \<open>ErrShortWrite\<close>; on an error
  the bytes not reported stay in the buffer and the error is latched.  \<open>Write\<close>
  copies into the buffer and flushes each time the buffer is full; it ends when a
  flush fails.
\<close>
definition Writer_Flush :: "Writer \<Rightarrow> 'u conn \<Rightarrow> error option \<times> Writer \<times> 'u conn" where
  "Writer_Flush w c =
     (if werr w \<noteq> None then (werr w, w, c)
      else
        (case wr_Write (wr w) c (wbuf w) of
           (n, e, c') \<Rightarrow>
             (let e' = (if n < length (wbuf w) \<and> e = None then Some ErrShortWrite else e) in
              if e' \<noteq> None then (e', w\<lparr>wbuf := drop n (wbuf w), werr := e'\<rparr>, c')
              else (None, w\<lparr>wbuf := []\<rparr>, c'))))"

definition Available :: "Writer \<Rightarrow> nat" where
  "Available w = defaultBufSize - length (wbuf w)"

function Writer_Write_loop ::
  "Writer \<Rightarrow> 'u conn \<Rightarrow> string \<Rightarrow> nat \<Rightarrow> nat \<times> error option \<times> Writer \<times> 'u conn" where
  "Writer_Write_loop w c p nn =
     (if length p = 0 then (nn, werr w, w, c)
      else if Available w = 0 then
        (case Writer_Flush w c of
           (_, w1, c1) \<Rightarrow>
             if werr w1 \<noteq> None \<or> Available w1 = 0 then (nn, werr w1, w1, c1)
             else
               (let n = min (Available w1) (length p) in
                Writer_Write_loop (w1\<lparr>wbuf := wbuf w1 @ take n p\<rparr>) c1 (drop n p) (nn + n)))
      else
        (let n = min (Available w) (length p) in
         Writer_Write_loop (w\<lparr>wbuf := wbuf w @ take n p\<rparr>) c (drop n p) (nn + n)))"
  by pat_completeness auto
termination
  by (relation "measure (\<lambda>(w, c, p, nn). length p)") auto

declare Writer_Write_loop.simps [simp del]

definition Writer_Write ::
  "Writer \<Rightarrow> 'u conn \<Rightarrow> string \<Rightarrow> nat \<times> error option \<times> Writer \<times> 'u conn" where
  "Writer_Write w c p =
     (if werr w \<noteq> None then (0, werr w, w, c) else Writer_Write_loop w c p 0)"

text \<open>
  The two methods of the body sink \<open>c.bw\<close> the application holds.  Without a sink
  (\<open>Respond\<close> returned \<open>nil\<close>) the call is a nil dereference.
\<close>
definition bw_Write :: "'u conn \<Rightarrow> string \<Rightarrow> nat \<times> error option \<times> 'u conn" where
  "bw_Write c p =
     (case bw c of
        None \<Rightarrow> (0, Some (Panic ''nil pointer dereference''), c)
      | Some w \<Rightarrow>
          (case Writer_Write w c p of (n, e, w', c') \<Rightarrow> (n, e, c'\<lparr>bw := Some w'\<rparr>)))"

definition bw_Flush :: "'u conn \<Rightarrow> error option \<times> 'u conn" where
  "bw_Flush c =
     (case bw c of
        None \<Rightarrow> (Some (Panic ''nil pointer dereference''), c)
      | Some w \<Rightarrow> (case Writer_Flush w c of (e, w', c') \<Rightarrow> (e, c'\<lparr>bw := Some w'\<rparr>)))"

text \<open>
  \<open>conn.Respond\<close>.  The header map is a Go reference the method changes, so the map
  is returned; the first component says whether a body sink is returned (\<open>c.bw\<close>)
  or \<open>nil\<close>.
\<close>
definition headerBlock :: "string \<Rightarrow> int \<Rightarrow> StringsMap \<Rightarrow> string" where
  "headerBlock proto status header =
     (let statusString = Itoa status;
          text = (case StatusText status of
                    Some t \<Rightarrow> t | None \<Rightarrow> ''status code '' @ statusString)
      in proto @ '' '' @ statusString @ '' '' @ text @ CRLF @
         concat (map (\<lambda>(key, values).
                   concat (map (\<lambda>value. key @ '': '' @ value @ CRLF) values)) header) @
         CRLF)"

text \<open>
  The first part of \<open>Respond\<close> once the call is accepted, up to the decision on the
  framing: the fields of the connection it sets and the header map it leaves.
\<close>
definition Respond_framing :: "'u conn \<Rightarrow> int \<Rightarrow> StringsMap \<Rightarrow> StringsMap \<times> 'u conn" where
  "Respond_framing c status header =
     (let c1 = c\<lparr>respondCalled := True, chunked := True,
                 requestErr := Some ErrResponseStarted\<rparr>;
          c2 = (if 0 < requestAvail c1 then c1\<lparr>closeAfterResponse := True\<rparr> else c1);
          h3 = (if status = StatusNotModified
                then AList.delete HeaderTransferEncoding
                       (AList.delete HeaderContentType header)
                else header);
          c3 = (if status = StatusNotModified then c2\<lparr>chunked := False\<rparr> else c2);
          h4 = (if closeAfterResponse c3 then Set h3 HeaderConnection ''close'' else h3);
          c4 = (if closeAfterResponse c3 then c3\<lparr>chunked := False\<rparr> else c3);
          c5 = c4\<lparr>responseAvail := 0\<rparr>;
          c6 = (case Get h4 HeaderContentLength of
                  Some s \<Rightarrow> c5\<lparr>responseAvail := fst (Atoi s), chunked := False\<rparr>
                | None \<Rightarrow> c5);
          c7 = (if found h4 HeaderTransferEncoding then c6\<lparr>chunked := False\<rparr> else c6);
          h8 = (if chunked c7 then Set h4 HeaderTransferEncoding ''chunked'' else h4)
      in (h8, c7))"

definition Respond :: "'u conn \<Rightarrow> int \<Rightarrow> StringsMap \<Rightarrow> bool \<times> StringsMap \<times> 'u conn" where
  "Respond c status header =
     (if hijacked c then (False, header, c)
      else if respondCalled c then (False, header, c)
      else
        (case Respond_framing c status header of
           (h8, c7) \<Rightarrow>
             (let proto = (if atLeastHttp11 c7 then ''HTTP/1.1'' else ''HTTP/1.0'');
                  b = headerBlock proto status h8
              in if chunked c7 then
                   (let c8 = c7\<lparr>bw := Some \<lparr>wr = chunkedW, wbuf = [], werr = None\<rparr>\<rparr> in
                    (case netConn_Write c8 b of
                       (_, e, nc) \<Rightarrow> (True, h8, c8\<lparr>netConn := nc, responseErr := e\<rparr>)))
                 else
                   (let c8 = c7\<lparr>bw := Some \<lparr>wr = identityW, wbuf = [], werr = None\<rparr>\<rparr> in
                    (case bw_Write c8 b of (_, _, c9) \<Rightarrow> (True, h8, c9))))))"

text \<open>
  \<open>conn.Hijack\<close>: the connection, the buffered bytes and the error it returns, and
  the \<open>conn\<close> after the call.
\<close>
definition Hijack :: "'u conn \<Rightarrow> (NetConn option \<times> Reader option \<times> error option) \<times> 'u conn" where
  "Hijack c = ((None, None, None), c)"

text \<open>
  \<open>conn.finish\<close>.  The call \<open>c.req.Respond(web.StatusOK, ...)\<close> goes through the
  request to \<open>conn.Respond\<close> with the map of its key and value arguments.
\<close>
definition finish :: "'u conn \<Rightarrow> error option \<times> 'u conn" where
  "finish c =
     (let c1 = (if \<not> respondCalled c
                then snd (snd (Respond c StatusOK
                       [(HeaderContentType, [''text/html charset=utf-8''])]))
                else c);
          c2 = (if responseAvail c1 \<noteq> 0 then c1\<lparr>closeAfterResponse := True\<rparr> else c1)
      in if bw c2 = None then (Some (Panic ''nil pointer dereference''), c2)
         else
           (let c3 = snd (bw_Flush c2);
                c4 = (if chunked c3 then
                        (case netConn_Write c3 (''0'' @ CRLF @ CRLF) of
                           (_, e, nc) \<Rightarrow> c3\<lparr>netConn := nc, responseErr := e\<rparr>)
                      else c3);
                c5 = (if responseErr c4 = None
                      then c4\<lparr>responseErr := Some ErrResponseBodyClosed\<rparr> else c4)
            in (None, c5\<lparr>netConn_nil := True, br_nil := True, bw := None\<rparr>)))"

section \<open>Reading a request\<close>

text \<open>
  \<open>readStatusLine\<close>.  \<open>matchRequestLine\<close> is \<open>requestLineRegexp.FindSubmatch\<close> for the
  expression \<open>^([_A-Za-z0-9]+) ([^ ]+) HTTP/([0-9]+)\.([0-9]+)$\<close>: each group is
  followed by a byte it cannot hold, so a match takes the longest run at each group.
  \<open>http.ParseURL\<close> (Go library) is the parameter \<open>ParseURL\<close>.
\<close>
definition isMethodByte :: "char \<Rightarrow> bool" where
  "isMethodByte c =
     (let n = of_char c :: nat in
      c = CHR ''_'' \<or> (65 \<le> n \<and> n \<le> 90) \<or> (97 \<le> n \<and> n \<le> 122) \<or> (48 \<le> n \<and> n \<le> 57))"

definition matchRequestLine :: "string \<Rightarrow> (string \<times> string \<times> string \<times> string) option" where
  "matchRequestLine p =
     (let m1 = takeWhile isMethodByte p; r1 = dropWhile isMethodByte p in
      if m1 = [] \<or> take 1 r1 \<noteq> '' '' then None
      else
        (let m2 = takeWhile (\<lambda>c. c \<noteq> CHR '' '') (drop 1 r1);
             r2 = dropWhile (\<lambda>c. c \<noteq> CHR '' '') (drop 1 r1) in
         if m2 = [] \<or> take 6 r2 \<noteq> '' HTTP/'' then None
         else
           (let m3 = takeWhile isDigit (drop 6 r2); r3 = dropWhile isDigit (drop 6 r2) in
            if m3 = [] \<or> take 1 r3 \<noteq> ''.'' then None
            else
              (let m4 = takeWhile isDigit (drop 1 r3); r4 = dropWhile isDigit (drop 1 r3) in
               if m4 = [] \<or> r4 \<noteq> [] then None else Some (m1, m2, m3, m4)))))"

definition readStatusLine ::
  "(string \<Rightarrow> 'u option) \<Rightarrow> Reader \<Rightarrow> 'u Request \<Rightarrow> error option \<times> 'u Request \<times> Reader" where
  "readStatusLine ParseURL b r =
     (case ReadSlice b of
        (Inl err, b') \<Rightarrow> (Some err, r, b')
      | (Inr p0, b') \<Rightarrow>
          (case matchRequestLine (trimWSRight p0) of
             None \<Rightarrow> (Some (ErrorString ''malformed request line''), r, b')
           | Some (m1, m2, m3, m4) \<Rightarrow>
               (let r1 = r\<lparr>Method := ToUpper m1\<rparr> in
                case Atoi m3 of
                  (major, Some _) \<Rightarrow>
                    (Some (ErrorString ''bad major version''), r1\<lparr>ProtocolMajor := major\<rparr>, b')
                | (major, None) \<Rightarrow>
                    (let r2 = r1\<lparr>ProtocolMajor := major\<rparr> in
                     case Atoi m4 of
                       (minor, Some _) \<Rightarrow>
                         (Some (ErrorString ''bad minor version''),
                          r2\<lparr>ProtocolMinor := minor\<rparr>, b')
                     | (minor, None) \<Rightarrow>
                         (let r3 = r2\<lparr>ProtocolMinor := minor\<rparr> in
                          case ParseURL m2 of
                            None \<Rightarrow> (Some (ErrorString ''bad url''), r3\<lparr>URL := None\<rparr>, b')
                          | Some u \<Rightarrow> (None, r3\<lparr>URL := Some u\<rparr>, b'))))))"

text \<open>\<open>conn.prepare\<close>.\<close>
definition prepare :: "(string \<Rightarrow> 'u option) \<Rightarrow> 'u conn \<Rightarrow> error option \<times> 'u conn" where
  "prepare ParseURL c =
     (case readStatusLine ParseURL (br c) NewRequest of
        (Some err, r, b1) \<Rightarrow> (Some err, c\<lparr>req := r, br := b1\<rparr>)
      | (None, r, b1) \<Rightarrow>
          (case readHeaders b1 (Header r) of
             (Some err, h, b2) \<Rightarrow> (Some err, c\<lparr>req := r\<lparr>Header := h\<rparr>, br := b2\<rparr>)
           | (None, h, b2) \<Rightarrow>
               (let c0 = c\<lparr>req := r\<lparr>Header := h\<rparr>, br := b2\<rparr> in
                case (case Get h HeaderContentLength of
                        Some s \<Rightarrow>
                          (case Atoi s of
                             (n, Some _) \<Rightarrow> Inl (c0\<lparr>req := (req c0)\<lparr>ContentLength := n\<rparr>\<rparr>)
                           | (n, None) \<Rightarrow>
                               Inr (c0\<lparr>req := (req c0)\<lparr>ContentLength := n\<rparr>,
                                       requestAvail := n\<rparr>))
                      | None \<Rightarrow> Inr (c0\<lparr>req := (req c0)\<lparr>ContentLength := - 1\<rparr>\<rparr>)) of
                  Inl c1 \<Rightarrow> (Some (ErrorString ''bad content length''), c1)
                | Inr c1 \<Rightarrow>
                    (let c2 = (case Get h HeaderExpect of
                                 Some s \<Rightarrow>
                                   c1\<lparr>write100Continue := (ToLower s = ''100-continue'')\<rparr>
                               | None \<Rightarrow> c1);
                         c3 = c2\<lparr>atLeastHttp11 :=
                                  (1 < ProtocolMajor (req c2) \<or>
                                   ProtocolMajor (req c2) = 1 \<and> 1 \<le> ProtocolMinor (req c2))\<rparr>;
                         c4 = (if atLeastHttp11 c3 then
                                 (case Get h HeaderConnection of
                                    Some s \<Rightarrow>
                                      if ToLower s = ''close''
                                      then c3\<lparr>closeAfterResponse := True\<rparr> else c3
                                  | None \<Rightarrow> c3)
                               else c3\<lparr>closeAfterResponse := True\<rparr>)
                     in (None, c4)))))"

text \<open>\<open>requestReader.Read\<close> into a buffer of \<open>n\<close> bytes: the bytes read, the error, the \<open>conn\<close>.\<close>
definition continue100 :: string where
  "continue100 = ''HTTP/1.1 100 Continue'' @ CRLF @ CRLF"

definition requestReader_Read :: "'u conn \<Rightarrow> nat \<Rightarrow> string \<times> error option \<times> 'u conn" where
  "requestReader_Read c n =
     (if requestErr c \<noteq> None then ([], requestErr c, c)
      else
        (let c1 = (if write100Continue c then
                     (case netConn_Write (c\<lparr>write100Continue := False\<rparr>) continue100 of
                        (_, _, nc) \<Rightarrow> c\<lparr>write100Continue := False, netConn := nc\<rparr>)
                   else c) in
         if requestAvail c1 \<le> 0 then ([], Some EOF, c1\<lparr>requestErr := Some EOF\<rparr>)
         else
           (let k = (if requestAvail c1 < int n then nat (requestAvail c1) else n) in
            if br_nil c1 then
              ([], Some (Panic ''nil pointer dereference''), c1)
            else
              (case Reader_Read (br c1) k of
                 (data, e, b') \<Rightarrow>
                   (data, e, c1\<lparr>br := b', requestErr := e,
                               requestAvail := requestAvail c1 - int (length data)\<rparr>)))))"

section \<open>The serving loop\<close>

text \<open>
  A handler is application code that is given the request and calls into the
  connection.  It is modelled by the calls it makes, in order: \<open>Respond\<close>, writes to
  and flushes of the body sink \<open>Respond\<close> returned, reads of the request body, and
  \<open>Hijack\<close>.  The calls may depend on the connection as the handler finds it.  A
  handler that holds no body sink has nothing to write to or to flush: such a call
  leaves the connection as it is.
\<close>
datatype action =
    ARespond int StringsMap
  | AWrite string
  | AFlush
  | ARead nat
  | AHijack

fun act :: "action \<Rightarrow> 'u conn \<Rightarrow> 'u conn" where
  "act (ARespond status header) c = snd (snd (Respond c status header))"
| "act (AWrite p) c = (if bw c = None then c else snd (snd (bw_Write c p)))"
| "act AFlush c = (if bw c = None then c else snd (bw_Flush c))"
| "act (ARead n) c = snd (snd (requestReader_Read c n))"
| "act AHijack c = snd (Hijack c)"

fun run :: "action list \<Rightarrow> 'u conn \<Rightarrow> 'u conn" where
  "run [] c = c"
| "run (a # as) c = run as (act a c)"

section \<open>The router\<close>

text \<open>
  \<open>parameterRegexp.FindStringSubmatchIndex\<close> for the expression
  \<open><([A-Za-z0-9_]*)(:[^>]*)?>\<close>.  \<open>matchParameter\<close> is a match that starts at the first
  byte: the name, the sub-expression after the colon if there is one, and the text
  after the match.  \<open>findParameter\<close> is the leftmost match: the text before it
  (\<open>pattern[0:a[0]]\<close>), the name (\<open>pattern[a[2]:a[3]]\<close>), the sub-expression
  (\<open>pattern[a[4]+1:a[5]]\<close>, when \<open>a[4] >= 0\<close>) and the text after it (\<open>pattern[a[1]:]\<close>).
\<close>
definition isNameByte :: "char \<Rightarrow> bool" where
  "isNameByte c = isMethodByte c"

definition matchParameter :: "string \<Rightarrow> (string \<times> string option \<times> string) option" where
  "matchParameter s =
     (case s of
        [] \<Rightarrow> None
      | c # t \<Rightarrow>
          if c \<noteq> CHR ''<'' then None
          else
            (let name = takeWhile isNameByte t; r = dropWhile isNameByte t in
             case r of
               [] \<Rightarrow> None
             | d # u \<Rightarrow>
                 if d = CHR ''>'' then Some (name, None, u)
                 else if d = CHR '':'' then
                   (case dropWhile (\<lambda>x. x \<noteq> CHR ''>'') u of
                      [] \<Rightarrow> None
                    | _ # rest \<Rightarrow> Some (name, Some (takeWhile (\<lambda>x. x \<noteq> CHR ''>'') u), rest))
                 else None))"

fun findParameter :: "string \<Rightarrow> (string \<times> string \<times> string option \<times> string) option" where
  "findParameter [] = None"
| "findParameter (c # cs) =
     (case matchParameter (c # cs) of
        Some (name, sub, rest) \<Rightarrow> Some ([], name, sub, rest)
      | None \<Rightarrow>
          (case findParameter cs of
             None \<Rightarrow> None
           | Some (pre, name, sub, rest) \<Rightarrow> Some (c # pre, name, sub, rest)))"

text \<open>\<open>regexp.QuoteMeta\<close> (Go library): a backslash before each operator of an expression.\<close>
definition QuoteMeta :: "string \<Rightarrow> string" where
  "QuoteMeta s =
     concat (map (\<lambda>c. if c \<in> set (''.+*?()|[]{}^$'' @ [CHR 0x5C])
                       then [CHR 0x5C, c] else [c]) s)"

text \<open>A match of \<open>parameterRegexp\<close> is not empty, so the loop of \<open>compilePattern\<close> ends.\<close>

lemma matchParameter_shorter:
  assumes "matchParameter s = Some (name, sub, rest)"
  shows "length rest < length s"
proof (cases s)
  case Nil
  with assms show ?thesis by (simp add: matchParameter_def)
next
  case (Cons c t)
  let ?r = "dropWhile isNameByte t"
  have lr: "length ?r \<le> length t" by (rule length_dropWhile_le)
  show ?thesis
  proof (cases ?r)
    case Nil
    with assms \<open>s = c # t\<close> show ?thesis
      by (simp add: matchParameter_def Let_def del: dropWhile_eq_Nil_conv split: if_splits)
  next
    case (Cons d u)
    note r = this
    have lu: "length (dropWhile (\<lambda>x. x \<noteq> CHR ''>'') u) \<le> length u"
      by (rule length_dropWhile_le)
    from lr r have "length u < length t" by simp
    with assms \<open>s = c # t\<close> r lu show ?thesis
      by (auto simp: matchParameter_def Let_def simp del: dropWhile_eq_Nil_conv
          split: if_splits list.splits)
  qed
qed

lemma findParameter_shorter:
  "findParameter s = Some (pre, name, sub, rest) \<Longrightarrow> length rest < length s"
proof (induction s arbitrary: pre)
  case Nil
  then show ?case by simp
next
  case (Cons c cs)
  show ?case
  proof (cases "matchParameter (c # cs)")
    case None
    with Cons.prems obtain pre' where "findParameter cs = Some (pre', name, sub, rest)"
      by (auto split: option.splits)
    from Cons.IH[OF this] show ?thesis by simp
  next
    case (Some a)
    with Cons.prems have "matchParameter (c # cs) = Some (name, sub, rest)"
      by (auto split: prod.splits)
    from matchParameter_shorter[OF this] show ?thesis .
  qed
qed

text \<open>
  The loop of \<open>compilePattern\<close>: the text of the expression built so far, the array
  \<open>names\<close> and the index \<open>i\<close>.  Storing at an index outside the array is the Go
  run-time panic.
\<close>
function compilePattern_loop ::
  "string \<Rightarrow> string \<Rightarrow> string list \<Rightarrow> nat \<Rightarrow> string \<Rightarrow> error + (string \<times> string list \<times> nat)" where
  "compilePattern_loop pattern buf names i sep =
     (case findParameter pattern of
        None \<Rightarrow> Inr (buf @ QuoteMeta pattern, names, i)
      | Some (pre, name, sub, rest) \<Rightarrow>
          (let buf1 = buf @ QuoteMeta pre in
           if name \<noteq> [] \<and> length names \<le> i then Inl (Panic ''index out of range'')
           else
             (let names' = (if name \<noteq> [] then names[i := name] else names);
                  i' = (if name \<noteq> [] then i + 1 else i);
                  buf2 = (if name \<noteq> [] then buf1 @ ''('' else buf1);
                  buf3 = (case sub of
                            Some e \<Rightarrow> buf2 @ e
                          | None \<Rightarrow> buf2 @ ''[^'' @ sep @ '']+'');
                  buf4 = (if name \<noteq> [] then buf3 @ '')'' else buf3)
              in compilePattern_loop rest buf4 names' i' sep)))"
  by pat_completeness auto
termination
  by (relation "measure (\<lambda>(pattern, buf, names, i, sep). length pattern)")
     (auto simp: findParameter_shorter)

declare compilePattern_loop.simps [simp del]

text \<open>
  A compiled expression is the function \<open>FindStringSubmatch\<close> of it: the empty list
  when the text does not match, else the match followed by the text of each group.
  \<open>regexp.MustCompile\<close> (Go library) is the parameter \<open>MustCompile\<close>; it panics
  (\<open>None\<close>) on a text that is not an expression.
\<close>
type_synonym Regexp = "string \<Rightarrow> string list"

definition compilePattern ::
  "(string \<Rightarrow> Regexp option) \<Rightarrow> string \<Rightarrow> bool \<Rightarrow> string \<Rightarrow> error + (Regexp \<times> string list)" where
  "compilePattern MustCompile pattern addSlash sep =
     (case compilePattern_loop pattern ''^'' (replicate 8 []) 0 sep of
        Inl e \<Rightarrow> Inl e
      | Inr (buf, names, i) \<Rightarrow>
          (let buf1 = (if addSlash then buf @ ''?'' else buf) @ ''$'' in
           case MustCompile buf1 of
             None \<Rightarrow> Inl (Panic ''regexp: compile'')
           | Some re \<Rightarrow> Inr (re, take i names)))"

text \<open>A route and the router; \<open>'h\<close> is the type of the handlers of the application.\<close>
record 'h route =
  addSlash :: bool
  regexp :: Regexp
  names :: "string list"
  handlers :: "string \<rightharpoonup> 'h"

record 'h Router =
  routes :: "'h route list"

text \<open>
  An argument of \<open>Register\<close> is a Go interface value: a string, a \<open>Handler\<close>, a
  \<open>func(*Request)\<close>, or a value of another type.
\<close>
datatype 'h iface = IString string | IHandler 'h | IFunc 'h | IOther

fun Register_handlers :: "string \<Rightarrow> 'h iface list \<Rightarrow> (string \<rightharpoonup> 'h) \<Rightarrow> error + (string \<rightharpoonup> 'h)" where
  "Register_handlers pattern (IString method # IHandler h # rest) m =
     Register_handlers pattern rest (m(method \<mapsto> h))"
| "Register_handlers pattern (IString method # IFunc h # rest) m =
     Register_handlers pattern rest (m(method \<mapsto> h))"
| "Register_handlers pattern (IString method # _ # rest) m =
     Inl (Panic (''twister: Bad handler for pattern '' @ pattern @ '' and method '' @ method))"
| "Register_handlers pattern (_ # _ # rest) m =
     Inl (Panic (''twister: Bad method for pattern '' @ pattern))"
| "Register_handlers pattern _ m = Inr m"

definition Register ::
  "(string \<Rightarrow> Regexp option) \<Rightarrow> 'h Router \<Rightarrow> string \<Rightarrow> 'h iface list \<Rightarrow> error + 'h Router" where
  "Register MustCompile router pattern hs =
     (if pattern = [] \<or> pattern ! 0 \<noteq> CHR ''/'' then
        Inl (Panic (''twister: Invalid route pattern '' @ pattern))
      else if length hs mod 2 \<noteq> 0 \<or> length hs = 0 then
        Inl (Panic (''twister: Invalid handlers for pattern '' @ pattern @
                    ''. Structure of handlers is [method handler]+.''))
      else
        (let slash = (pattern ! (length pattern - 1) = CHR ''/'') in
         case compilePattern MustCompile pattern slash ''/'' of
           Inl e \<Rightarrow> Inl e
         | Inr (re, ns) \<Rightarrow>
             (case Register_handlers pattern hs Map.empty of
                Inl e \<Rightarrow> Inl e
              | Inr m \<Rightarrow>
                  Inr (router\<lparr>routes := routes router @
                         [\<lparr>addSlash = slash, regexp = re, names = ns, handlers = m\<rparr>]\<rparr>))))"

text \<open>
  The handler \<open>find\<close> returns: a handler of the application, the function
  \<open>addSlash\<close>, or a \<open>routerError\<close> with its status.
\<close>
datatype 'h target = App 'h | AddSlash | RouterError int

text \<open>
  \<open>http.URLUnescape\<close> (Go library): \<open>%XX\<close> is the byte with that code, \<open>+\<close> is a space;
  a \<open>%\<close> that two hexadecimal digits do not follow is an error.
\<close>
definition unhex :: "char \<Rightarrow> nat option" where
  "unhex c =
     (let n = of_char c :: nat in
      if 48 \<le> n \<and> n \<le> 57 then Some (n - 48)
      else if 97 \<le> n \<and> n \<le> 102 then Some (n - 87)
      else if 65 \<le> n \<and> n \<le> 70 then Some (n - 55)
      else None)"

fun URLUnescape :: "string \<Rightarrow> string option" where
  "URLUnescape [] = Some []"
| "URLUnescape (c # cs) =
     (if c = CHR ''%'' then
        (case cs of
           a # b # rest \<Rightarrow>
             (case (unhex a, unhex b, URLUnescape rest) of
                (Some x, Some y, Some r) \<Rightarrow> Some (char_of (16 * x + y) # r)
              | _ \<Rightarrow> None)
         | _ \<Rightarrow> None)
      else
        (case URLUnescape cs of
           None \<Rightarrow> None
         | Some r \<Rightarrow> Some ((if c = CHR ''+'' then CHR '' '' else c) # r)))"

text \<open>The loop over \<open>values\<close> in \<open>find\<close>: every value unescaped, or the first error.\<close>
fun unescapeValues :: "string list \<Rightarrow> string list option" where
  "unescapeValues [] = Some []"
| "unescapeValues (v # vs) =
     (case URLUnescape v of
        None \<Rightarrow> None
      | Some v' \<Rightarrow> (case unescapeValues vs of None \<Rightarrow> None | Some vs' \<Rightarrow> Some (v' # vs')))"

text \<open>
  \<open>Router.find\<close>: the loop over the routes.  \<open>path[len(path)-1]\<close> on the empty path is
  the Go run-time panic.
\<close>
fun find_loop :: "'h route list \<Rightarrow> string \<Rightarrow> string \<Rightarrow> error + ('h target \<times> string list \<times> string list)" where
  "find_loop [] path method = Inr (RouterError StatusNotFound, [], [])"
| "find_loop (r # rs) path method =
     (let values = regexp r path in
      if length values = 0 then find_loop rs path method
      else if addSlash r \<and> path = [] then Inl (Panic ''index out of range'')
      else if addSlash r \<and> path ! (length path - 1) \<noteq> CHR ''/'' then Inr (AddSlash, [], [])
      else
        (case unescapeValues (drop 1 values) of
           None \<Rightarrow> Inr (RouterError StatusNotFound, [], [])
         | Some values' \<Rightarrow>
             (case handlers r method of
                Some handler \<Rightarrow> Inr (App handler, names r, values')
              | None \<Rightarrow>
                  (case (if method = ''HEAD'' then handlers r ''GET'' else None) of
                     Some handler \<Rightarrow> Inr (App handler, names r, values')
                   | None \<Rightarrow>
                       (case handlers r ''*'' of
                          Some handler \<Rightarrow> Inr (App handler, names r, values')
                        | None \<Rightarrow> Inr (RouterError StatusMethodNotAllowed, [], []))))))"

definition find :: "'h Router \<Rightarrow> string \<Rightarrow> string \<Rightarrow> error + ('h target \<times> string list \<times> string list)" where
  "find router path method = find_loop (routes router) path method"

text \<open>
  The request as the router sees it: the path and the query of its URL, the method
  and the parameters.  What the router does with the request is a call of a handler
  of the application, of \<open>req.Redirect(url, perm)\<close> or of \<open>req.Error(status, nil)\<close>.
\<close>
record WebRequest =
  Path :: string
  RawQuery :: string
  ReqMethod :: string
  URLParam :: "string \<rightharpoonup> string"

datatype 'h call =
    CallHandler 'h WebRequest
  | CallRedirect string bool
  | CallError int

text \<open>The function \<open>addSlash\<close> of the router.\<close>
definition addSlash_func :: "WebRequest \<Rightarrow> 'h call" where
  "addSlash_func r =
     (let path = Path r @ ''/'';
          path' = (if 0 < length (RawQuery r) then path @ ''?'' @ RawQuery r else path)
      in CallRedirect path' True)"

text \<open>The loop of \<open>ServeWeb\<close> that stores the parameters under their names.\<close>
fun setParams :: "string list \<Rightarrow> string list \<Rightarrow> (string \<rightharpoonup> string) \<Rightarrow> error + (string \<rightharpoonup> string)" where
  "setParams [] vs m = Inr m"
| "setParams (n # ns) [] m = Inl (Panic ''index out of range'')"
| "setParams (n # ns) (v # vs) m = setParams ns vs (m(n \<mapsto> v))"

definition ServeWeb :: "'h Router \<Rightarrow> WebRequest \<Rightarrow> error + 'h call" where
  "ServeWeb router r =
     (case find router (Path r) (ReqMethod r) of
        Inl e \<Rightarrow> Inl e
      | Inr (handler, ns, vs) \<Rightarrow>
          (case setParams ns vs (URLParam r) of
             Inl e \<Rightarrow> Inl e
           | Inr m \<Rightarrow>
               (let r' = r\<lparr>URLParam := m\<rparr> in
                case handler of
                  App h \<Rightarrow> Inr (CallHandler h r')
                | AddSlash \<Rightarrow> Inr (addSlash_func r')
                | RouterError status \<Rightarrow> Inr (CallError status))))"

text \<open>\<open>HostRouter\<close> and its \<open>Register\<close>.\<close>
record 'h hostRoute =
  h_regexp :: Regexp
  h_names :: "string list"
  h_handler :: 'h

record 'h HostRouter =
  defaultHandler :: 'h
  h_routes :: "'h hostRoute list"

definition HostRouter_Register ::
  "(string \<Rightarrow> Regexp option) \<Rightarrow> 'h HostRouter \<Rightarrow> string \<Rightarrow> 'h \<Rightarrow> error + 'h HostRouter" where
  "HostRouter_Register MustCompile router hostPattern handler =
     (case compilePattern MustCompile hostPattern False ''.'' of
        Inl e \<Rightarrow> Inl e
      | Inr (re, ns) \<Rightarrow>
          Inr (router\<lparr>h_routes := h_routes router @
                 [\<lparr>h_regexp = re, h_names = ns, h_handler = handler\<rparr>]\<rparr>))"

section \<open>What the operations leave unchanged\<close>

text \<open>
  The writers change the stream, the latched response error and the count of the
  response bytes that remain, and nothing else of the connection but the buffer.
\<close>
definition netframe :: "'u conn \<Rightarrow> 'u conn \<Rightarrow> bool" where
  "netframe c c' =
     (atLeastHttp11 c' = atLeastHttp11 c \<and> br c' = br c \<and> br_nil c' = br_nil c \<and>
      chunked c' = chunked c \<and> closeAfterResponse c' = closeAfterResponse c \<and>
      hijacked c' = hijacked c \<and> netConn_nil c' = netConn_nil c \<and> req c' = req c \<and>
      requestAvail c' = requestAvail c \<and> requestErr c' = requestErr c \<and>
      respondCalled c' = respondCalled c \<and> write100Continue c' = write100Continue c)"

lemma netframe_refl: "netframe c c"
  by (simp add: netframe_def)

lemma netframe_trans: "netframe c c' \<Longrightarrow> netframe c' c'' \<Longrightarrow> netframe c c''"
  by (simp add: netframe_def)

lemma netframe_bw: "netframe c c' \<Longrightarrow> netframe c (c'\<lparr>bw := w\<rparr>)"
  by (simp add: netframe_def)

lemma identityWriter_Write_frame:
  "identityWriter_Write c p = (n, e, c') \<Longrightarrow> netframe c c' \<and> bw c' = bw c"
  by (auto simp: identityWriter_Write_def netframe_def split: if_splits prod.splits)

lemma chunkedWriter_Write_frame:
  "chunkedWriter_Write c p = (n, e, c') \<Longrightarrow> netframe c c' \<and> bw c' = bw c"
  by (auto simp: chunkedWriter_Write_def netframe_def Let_def split: if_splits prod.splits)

lemma wr_Write_frame:
  "wr_Write k c p = (n, e, c') \<Longrightarrow> netframe c c' \<and> bw c' = bw c"
  by (cases k) (auto simp: wr_Write_def dest: identityWriter_Write_frame chunkedWriter_Write_frame)

lemma Writer_Flush_frame:
  "Writer_Flush w c = (e, w', c') \<Longrightarrow> netframe c c' \<and> bw c' = bw c"
  by (auto simp: Writer_Flush_def Let_def netframe_refl split: if_splits prod.splits
      dest: wr_Write_frame)

lemma Writer_Write_loop_frame:
  "Writer_Write_loop w c p nn = (n, e, w', c') \<Longrightarrow> netframe c c' \<and> bw c' = bw c"
proof (induction w c p nn arbitrary: n e w' c' rule: Writer_Write_loop.induct)
  case (1 w c p nn)
  show ?case
  proof (cases "length p = 0")
    case True
    with "1.prems" show ?thesis
      by (subst (asm) Writer_Write_loop.simps) (simp add: netframe_refl)
  next
    case False
    note p = this
    show ?thesis
    proof (cases "Available w = 0")
      case False
      with p "1.prems" have
        "Writer_Write_loop (w\<lparr>wbuf := wbuf w @ take (min (Available w) (length p)) p\<rparr>) c
           (drop (min (Available w) (length p)) p) (nn + min (Available w) (length p)) =
         (n, e, w', c')"
        by (subst (asm) Writer_Write_loop.simps) (simp add: Let_def)
      from "1.IH"(2)[OF p False refl this] show ?thesis .
    next
      case True
      obtain e1 w1 c1 where fl: "Writer_Flush w c = (e1, w1, c1)"
        by (cases "Writer_Flush w c") auto
      from Writer_Flush_frame[OF fl] have f1: "netframe c c1" "bw c1 = bw c" by auto
      show ?thesis
      proof (cases "werr w1 \<noteq> None \<or> Available w1 = 0")
        case True
        with p \<open>Available w = 0\<close> fl "1.prems" have "c' = c1"
          by (subst (asm) Writer_Write_loop.simps) (auto simp: Let_def)
        with f1 show ?thesis by simp
      next
        case False
        with p \<open>Available w = 0\<close> fl "1.prems" have
          "Writer_Write_loop (w1\<lparr>wbuf := wbuf w1 @ take (min (Available w1) (length p)) p\<rparr>) c1
             (drop (min (Available w1) (length p)) p) (nn + min (Available w1) (length p)) =
           (n, e, w', c')"
          by (subst (asm) Writer_Write_loop.simps) (auto simp: Let_def)
        from "1.IH"(1)[OF p \<open>Available w = 0\<close> fl[symmetric] _ False refl this]
        have "netframe c1 c' \<and> bw c' = bw c1" by simp
        with f1 show ?thesis by (auto intro: netframe_trans)
      qed
    qed
  qed
qed

text \<open>A request that is read takes bytes from the stream.\<close>

lemma ReadSlice_shorter:
  "ReadSlice b = (Inr p, b') \<Longrightarrow> length (pending b') < length (pending b)"
  by (auto simp: ReadSlice_def Let_def split: if_splits)

lemma ReadSlice_le:
  "ReadSlice b = (r, b') \<Longrightarrow> length (pending b') \<le> length (pending b)"
  by (auto simp: ReadSlice_def Let_def split: if_splits)

lemma readHeaders_loop_le:
  "readHeaders_loop b k n h = (e, h', b') \<Longrightarrow> length (pending b') \<le> length (pending b)"
proof (induction b k n h rule: readHeaders_loop.induct)
  case (1 b lastKey headerCount header)
  obtain r b1 where rs: "ReadSlice b = (r, b1)" by (cases "ReadSlice b") auto
  from ReadSlice_le[OF rs] have le1: "length (pending b1) \<le> length (pending b)" .
  show ?case
  proof (cases r)
    case (Inl err)
    with rs "1.prems" have "b' = b1"
      by (subst (asm) readHeaders_loop.simps) simp
    with le1 show ?thesis by simp
  next
    case (Inr p0)
    note rs' = rs[unfolded Inr]
    show ?thesis
    proof (cases "headerLine p0 lastKey headerCount header")
      case (Inl res)
      with rs' "1.prems" have "b' = b1"
        by (subst (asm) readHeaders_loop.simps) simp
      with le1 show ?thesis by simp
    next
      case (Inr t)
      obtain k' n' h2 where t: "t = (k', n', h2)" by (cases t) auto
      from rs' Inr t "1.prems" have "readHeaders_loop b1 k' n' h2 = (e, h', b')"
        by (subst (asm) readHeaders_loop.simps) simp
      from "1.IH"[OF rs'[symmetric] refl Inr[unfolded t] refl refl this] le1
      show ?thesis by simp
    qed
  qed
qed

lemma readStatusLine_shorter:
  "readStatusLine P b r = (None, r', b') \<Longrightarrow> length (pending b') < length (pending b)"
  by (auto simp: readStatusLine_def Let_def split: prod.splits sum.splits option.splits
      dest: ReadSlice_shorter)

lemma prepare_shorter:
  assumes "prepare P c = (None, c')"
  shows "length (pending (br c')) < length (pending (br c))"
proof -
  obtain e1 r b1 where rl: "readStatusLine P (br c) NewRequest = (e1, r, b1)"
    by (cases "readStatusLine P (br c) NewRequest") auto
  obtain e2 h b2 where rh: "readHeaders b1 (Header r) = (e2, h, b2)"
    by (cases "readHeaders b1 (Header r)") auto
  from assms rl have e1: "e1 = None"
    by (cases e1) (auto simp: prepare_def)
  from assms rl rh e1 have e2: "e2 = None"
    by (cases e2) (auto simp: prepare_def)
  from assms rl rh e1 e2 have "br c' = b2"
    by (auto simp: prepare_def Let_def split: option.splits prod.splits sum.splits if_splits)
  moreover from readStatusLine_shorter rl e1
  have "length (pending b1) < length (pending (br c))" by blast
  moreover from readHeaders_loop_le rh
  have "length (pending b2) \<le> length (pending b1)" unfolding readHeaders_def by blast
  ultimately show ?thesis by simp
qed

lemma bw_Write_frame: "bw_Write c p = (n, e, c') \<Longrightarrow> netframe c c'"
  by (auto simp: bw_Write_def Writer_Write_def netframe_refl
      split: option.splits if_splits prod.splits
      dest!: Writer_Write_loop_frame intro: netframe_bw)

lemma bw_Flush_frame: "bw_Flush c = (e, c') \<Longrightarrow> netframe c c'"
  by (auto simp: bw_Flush_def netframe_refl split: option.splits prod.splits
      dest!: Writer_Flush_frame intro: netframe_bw)

lemma Get_delete_other: "k \<noteq> k' \<Longrightarrow> Get (AList.delete k' m) k = Get m k"
  by (simp add: Get_def index_def delete_conv')

lemma Get_Set_other: "k \<noteq> k' \<Longrightarrow> Get (Set m k' v) k = Get m k"
  by (simp add: Get_def index_def Set_def update_conv')

lemma found_delete_other: "k \<noteq> k' \<Longrightarrow> found (AList.delete k' m) k = found m k"
  by (simp add: found_def delete_conv')

lemma found_delete_same: "\<not> found (AList.delete k m) k"
  by (simp add: found_def delete_conv')

lemma found_Set_other: "k \<noteq> k' \<Longrightarrow> found (Set m k' v) k = found m k"
  by (simp add: found_def Set_def update_conv')

lemma header_names_distinct:
  "HeaderContentLength \<noteq> HeaderContentType" "HeaderContentLength \<noteq> HeaderTransferEncoding"
  "HeaderContentLength \<noteq> HeaderConnection" "HeaderTransferEncoding \<noteq> HeaderConnection"
  "HeaderTransferEncoding \<noteq> HeaderContentType"
  by (simp_all add: HeaderContentLength_def HeaderContentType_def HeaderTransferEncoding_def
      HeaderConnection_def)

text \<open>
  What \<open>Respond\<close> decides, read off its tests: the connection will be closed after
  the response when that was decided before or the request body has unread bytes; the
  response is chunked unless the status is 304, the connection will be closed, or the
  header map has a first value for \<open>Content-Length\<close> or a key \<open>Transfer-Encoding\<close>.
\<close>
definition willClose :: "'u conn \<Rightarrow> bool" where
  "willClose c = (closeAfterResponse c \<or> 0 < requestAvail c)"

definition willChunk :: "'u conn \<Rightarrow> int \<Rightarrow> StringsMap \<Rightarrow> bool" where
  "willChunk c status header =
     (status \<noteq> StatusNotModified \<and> \<not> willClose c \<and>
      Get header HeaderContentLength = None \<and> \<not> found header HeaderTransferEncoding)"

lemma Respond_framing_conn:
  "snd (Respond_framing c status header) =
     c\<lparr>respondCalled := True, chunked := willChunk c status header,
       requestErr := Some ErrResponseStarted, closeAfterResponse := willClose c,
       responseAvail := (case Get header HeaderContentLength of
                           Some s \<Rightarrow> fst (Atoi s) | None \<Rightarrow> 0)\<rparr>"
  by (auto simp: Respond_framing_def Let_def willChunk_def willClose_def
      Get_delete_other Get_Set_other found_delete_other found_delete_same found_Set_other
      header_names_distinct split: option.splits)


lemma Respond_netframe_fields:
  assumes "Respond c status header = (ok, h', c')"
  shows "br c' = br c \<and> br_nil c' = br_nil c \<and> hijacked c' = hijacked c \<and>
         netConn_nil c' = netConn_nil c \<and> req c' = req c \<and>
         requestAvail c' = requestAvail c \<and> write100Continue c' = write100Continue c \<and>
         atLeastHttp11 c' = atLeastHttp11 c"
proof (cases "hijacked c \<or> respondCalled c")
  case True
  with assms show ?thesis by (auto simp: Respond_def split: if_splits)
next
  case False
  obtain h8 c7 where fr: "Respond_framing c status header = (h8, c7)"
    by (cases "Respond_framing c status header") auto
  have c7: "c7 = snd (Respond_framing c status header)" by (simp add: fr)
  note c7' = c7[unfolded Respond_framing_conn]
  show ?thesis
  proof (cases "chunked c7")
    case True
    with assms False fr show ?thesis
      by (auto simp: Respond_def Let_def c7' split: prod.splits)
  next
    case nc: False
    let ?c8 = "c7\<lparr>bw := Some \<lparr>wr = identityW, wbuf = [], werr = None\<rparr>\<rparr>"
    obtain n e c9 where w: "bw_Write ?c8 (headerBlock (if atLeastHttp11 c7 then ''HTTP/1.1'' else ''HTTP/1.0'') status h8) = (n, e, c9)"
      by (cases "bw_Write ?c8 (headerBlock (if atLeastHttp11 c7 then ''HTTP/1.1'' else ''HTTP/1.0'') status h8)") auto
    from bw_Write_frame[OF w] have "netframe ?c8 c9" .
    moreover from assms False fr nc w have "c' = c9"
      by (auto simp: Respond_def Let_def split: prod.splits)
    ultimately show ?thesis by (simp add: netframe_def c7')
  qed
qed

lemma Respond_br: "Respond c status header = (ok, h', c') \<Longrightarrow> br c' = br c"
  by (drule Respond_netframe_fields) simp

lemma requestReader_Read_le:
  "requestReader_Read c n = (d, e, c') \<Longrightarrow> length (pending (br c')) \<le> length (pending (br c))"
  by (auto simp: requestReader_Read_def Reader_Read_def Let_def
      split: if_splits prod.splits)

lemma finish_br: "finish c = (e, c') \<Longrightarrow> br c' = br c"
proof -
  assume a: "finish c = (e, c')"
  obtain ok h1 c1 where r: "Respond c StatusOK [(HeaderContentType, [''text/html charset=utf-8''])] = (ok, h1, c1)"
    by (cases "Respond c StatusOK [(HeaderContentType, [''text/html charset=utf-8''])]") auto
  from Respond_br[OF r] have b1: "br c1 = br c" .
  define c2 where "c2 = (if \<not> respondCalled c then c1 else c)"
  define c3 where "c3 = (if responseAvail c2 \<noteq> 0 then c2\<lparr>closeAfterResponse := True\<rparr> else c2)"
  have b3: "br c3 = br c" using b1 by (simp add: c2_def c3_def)
  obtain e4 c4 where f: "bw_Flush c3 = (e4, c4)" by (cases "bw_Flush c3") auto
  from bw_Flush_frame[OF f] have b4: "br c4 = br c3" by (simp add: netframe_def)
  from a r f show ?thesis using b3 b4
    by (auto simp: finish_def Let_def c2_def c3_def split: if_splits prod.splits)
qed

lemma act_le: "length (pending (br (act a c))) \<le> length (pending (br c))"
proof (cases a)
  case (ARespond st h)
  then show ?thesis using Respond_br[of c st h] by (cases "Respond c st h") auto
next
  case (AWrite p)
  then show ?thesis using bw_Write_frame[of c p]
    by (cases "bw_Write c p") (auto simp: netframe_def)
next
  case AFlush
  then show ?thesis using bw_Flush_frame[of c]
    by (cases "bw_Flush c") (auto simp: netframe_def)
next
  case (ARead n)
  then show ?thesis using requestReader_Read_le[of c n]
    by (cases "requestReader_Read c n") auto
next
  case AHijack
  then show ?thesis by (simp add: Hijack_def)
qed

lemma run_le: "length (pending (br (run as c))) \<le> length (pending (br c))"
proof (induction as arbitrary: c)
  case Nil
  show ?case by simp
next
  case (Cons a as)
  from Cons.IH[of "act a c"] act_le[of a c] show ?case by simp
qed

section \<open>The serving loop of a connection\<close>

text \<open>
  The loop of \<open>serveConnection\<close>.  A panic ends the goroutine where it happens: the
  stream is not closed.  The result is the number of request/response cycles that
  \<open>finish\<close> completed and the stream as the goroutine leaves it.
\<close>
definition isPanic :: "error \<Rightarrow> bool" where
  "isPanic e = (case e of Panic _ \<Rightarrow> True | _ \<Rightarrow> False)"

function serve_loop ::
  "(string \<Rightarrow> 'u option) \<Rightarrow> ('u conn \<Rightarrow> action list) \<Rightarrow> NetConn \<Rightarrow> Reader \<Rightarrow> nat \<times> NetConn" where
  "serve_loop ParseURL handler nc b =
     (case prepare ParseURL (newConn nc b) of
        (Some err, c) \<Rightarrow>
          (0, if isPanic err then netConn c else net_Close (netConn c))
      | (None, c) \<Rightarrow>
          (let c' = run (handler c) c in
           if hijacked c' then (0, netConn c')
           else
             (case finish c' of
                (Some err, c'') \<Rightarrow>
                  (0, if isPanic err then netConn c'' else net_Close (netConn c''))
              | (None, c'') \<Rightarrow>
                  if closeAfterResponse c'' then (1, net_Close (netConn c''))
                  else
                    (case serve_loop ParseURL handler (netConn c'') (br c'') of
                       (k, nc') \<Rightarrow> (Suc k, nc')))))"
  by pat_completeness auto
termination
proof (relation "measure (\<lambda>(ParseURL, handler, nc, b). length (pending b))")
  show "wf (measure (\<lambda>(ParseURL, handler, nc, b). length (pending b)))" by simp
next
  fix ParseURL :: "string \<Rightarrow> 'u option" and handler :: "'u conn \<Rightarrow> action list"
    and nc b and x :: "error option" and y :: "'u conn" and xa :: "'u conn"
    and xb :: "error option" and ya :: "'u conn"
  assume p: "(x, y) = prepare ParseURL (newConn nc b)" and x: "x = None"
    and f: "(xb, ya) = finish xa" and xa: "xa = run (handler y) y"
  from p x have "prepare ParseURL (newConn nc b) = (None, y)" by simp
  from prepare_shorter[OF this] have "length (pending (br y)) < length (pending b)"
    by (simp add: newConn_def)
  moreover from f xa finish_br[of "run (handler y) y" xb ya]
  have "br ya = br (run (handler y) y)" by simp
  ultimately show "((ParseURL, handler, netConn ya, br ya), ParseURL, handler, nc, b)
      \<in> measure (\<lambda>(ParseURL, handler, nc, b). length (pending b))"
    using run_le[of "handler y" y] by simp
qed

declare serve_loop.simps [simp del]

text \<open>
  \<open>serveConnection\<close>: the reader over the stream has the default capacity of
  \<open>bufio.NewReader\<close>.  The result is the number of request/response cycles that
  \<open>finish\<close> completed and the stream as the goroutine leaves it.
\<close>
definition serveConnection ::
  "(string \<Rightarrow> 'u option) \<Rightarrow> NetConn \<Rightarrow> ('u conn \<Rightarrow> action list) \<Rightarrow> nat \<times> NetConn" where
  "serveConnection ParseURL nc handler =
     serve_loop ParseURL handler nc \<lparr>rsize = defaultBufSize, pending = incoming nc\<rparr>"

section \<open>The framing decision of \<open>Respond\<close>\<close>

text \<open>
  The header collection of the data model maps a name to one or more values: no key of
  a well-formed map has an empty list of values.
\<close>
definition wellFormed :: "StringsMap \<Rightarrow> bool" where
  "wellFormed header = list_all (\<lambda>(k, vs). vs \<noteq> []) header"

lemma wellFormed_Get: "wellFormed header \<Longrightarrow> (Get header k = None) = (\<not> found header k)"
proof -
  assume wf: "wellFormed header"
  have "map_of header k = Some vs \<Longrightarrow> vs \<noteq> []" for vs
    using wf map_of_SomeD[of header k vs] by (auto simp: wellFormed_def list_all_iff)
  then show ?thesis
    by (cases "map_of header k") (auto simp: Get_def index_def found_def split: list.splits)
qed

lemma index_Set_same: "index (Set m k v) k = [v]"
  by (simp add: index_def Set_def update_conv')

lemma Respond_accepted:
  assumes "\<not> hijacked c" "\<not> respondCalled c"
  shows "fst (Respond c status header) \<and>
         fst (snd (Respond c status header)) = fst (Respond_framing c status header) \<and>
         chunked (snd (snd (Respond c status header))) = willChunk c status header \<and>
         closeAfterResponse (snd (snd (Respond c status header))) = willClose c \<and>
         respondCalled (snd (snd (Respond c status header)))"
proof -
  obtain h8 c7 where fr: "Respond_framing c status header = (h8, c7)"
    by (cases "Respond_framing c status header") auto
  have c7: "c7 = snd (Respond_framing c status header)" by (simp add: fr)
  note c7' = c7[unfolded Respond_framing_conn]
  show ?thesis
  proof (cases "chunked c7")
    case True
    with assms fr show ?thesis
      by (auto simp: Respond_def Let_def c7' split: prod.splits)
  next
    case nc: False
    let ?c8 = "c7\<lparr>bw := Some \<lparr>wr = identityW, wbuf = [], werr = None\<rparr>\<rparr>"
    let ?b = "headerBlock (if atLeastHttp11 c7 then ''HTTP/1.1'' else ''HTTP/1.0'') status h8"
    obtain n e c9 where w: "bw_Write ?c8 ?b = (n, e, c9)"
      by (cases "bw_Write ?c8 ?b") auto
    from bw_Write_frame[OF w] have "netframe ?c8 c9" .
    moreover from assms fr nc w have "Respond c status header = (True, h8, c9)"
      by (auto simp: Respond_def Let_def split: prod.splits)
    ultimately show ?thesis using fr by (simp add: netframe_def c7')
  qed
qed

lemma Respond_framing_chunked_header:
  "willChunk c status header \<Longrightarrow>
   index (fst (Respond_framing c status header)) HeaderTransferEncoding = [''chunked'']"
  by (auto simp: Respond_framing_def Let_def willChunk_def willClose_def index_Set_same
      Get_delete_other Get_Set_other found_delete_other found_delete_same found_Set_other
      header_names_distinct split: option.splits)

text \<open>
  Claim C3.  When \<open>Respond\<close> accepts the call (the connection is not hijacked and no
  response was committed before) it returns a body sink, and after it chunked framing
  is selected and the header map holds \<open>Transfer-Encoding: chunked\<close> if and only if
  the caller's map had neither a \<open>Content-Length\<close> nor a \<open>Transfer-Encoding\<close> key,
  the status is not 304 and close-after-response is not set.  In particular a response
  with \<open>Content-Length\<close> is never chunked; the size of the body plays no part, since
  the decision is taken before any byte of it is written.
\<close>
theorem Respond_chunked_iff:
  assumes "\<not> hijacked c" and "\<not> respondCalled c" and "wellFormed header"
    and "Respond c status header = (ok, header', c')"
  shows "ok \<and>
         ((chunked c' \<and> index header' HeaderTransferEncoding = [''chunked'']) =
          (\<not> found header HeaderContentLength \<and> \<not> found header HeaderTransferEncoding \<and>
           status \<noteq> StatusNotModified \<and> \<not> closeAfterResponse c')) \<and>
         (found header HeaderContentLength \<longrightarrow> \<not> chunked c')"
proof -
  from Respond_accepted[OF assms(1,2), of status header] assms(4)
  have ok: ok and h: "header' = fst (Respond_framing c status header)"
    and ch: "chunked c' = willChunk c status header"
    and cl: "closeAfterResponse c' = willClose c"
    by simp_all
  have g: "(Get header HeaderContentLength = None) = (\<not> found header HeaderContentLength)"
    by (rule wellFormed_Get[OF assms(3)])
  show ?thesis
  proof (cases "willChunk c status header")
    case True
    from Respond_framing_chunked_header[OF True] True ok h ch cl g show ?thesis
      by (auto simp: willChunk_def)
  next
    case False
    with ok h ch cl g show ?thesis by (auto simp: willChunk_def)
  qed
qed

section \<open>The chunked writer\<close>

lemma netConn_Write_ok:
  "netConn_Write c p = (n, None, nc) \<Longrightarrow>
   n = length p \<and> sent nc = sent (netConn c) @ p \<and> \<not> netConn_nil c"
  by (auto simp: netConn_Write_def net_Write_def split: if_splits option.splits)

text \<open>
  Claim C9.  A write of a non-empty slice to the chunked writer that returns without an
  error has put the whole chunk frame on the stream (the length in hexadecimal, CR LF,
  the bytes, CR LF) and returns 0 as the number of bytes written, not the length of
  the slice.
\<close>
theorem chunkedWriter_Write_zero:
  assumes "p \<noteq> []" and "chunkedWriter_Write c p = (n, None, c')"
  shows "n = 0 \<and> n \<noteq> length p \<and>
         sent (netConn c') = sent (netConn c) @ Itob16 (length p) @ CRLF @ p @ CRLF"
proof -
  from assms have e0: "responseErr c = None"
    by (auto simp: chunkedWriter_Write_def split: if_splits)
  obtain n1 e1 nc1 where w1: "netConn_Write c (Itob16 (length p) @ CRLF) = (n1, e1, nc1)"
    by (cases "netConn_Write c (Itob16 (length p) @ CRLF)") auto
  let ?c1 = "c\<lparr>netConn := nc1, responseErr := e1\<rparr>"
  from assms e0 w1 have e1: "e1 = None"
    by (auto simp: chunkedWriter_Write_def Let_def split: if_splits)
  obtain n2 e2 nc2 where w2: "netConn_Write ?c1 p = (n2, e2, nc2)"
    by (cases "netConn_Write ?c1 p") auto
  let ?c2 = "?c1\<lparr>netConn := nc2, responseErr := e2\<rparr>"
  from assms e0 w1 e1 w2 have e2: "e2 = None"
    by (auto simp: chunkedWriter_Write_def Let_def split: if_splits)
  obtain n3 e3 nc3 where w3: "netConn_Write ?c2 CRLF = (n3, e3, nc3)"
    by (cases "netConn_Write ?c2 CRLF") auto
  from assms e0 w1 e1 w2 e2 w3 have r: "n = 0" "e3 = None" "netConn c' = nc3"
    by (auto simp: chunkedWriter_Write_def Let_def split: if_splits)
  from netConn_Write_ok[OF w1[unfolded e1]] netConn_Write_ok[OF w2[unfolded e2]]
    netConn_Write_ok[OF w3[unfolded r(2)]] r assms(1)
  show ?thesis by simp
qed

text \<open>A fresh connection over an empty stream, for the examples.\<close>
definition conn0 :: "unit conn" where
  "conn0 = newConn \<lparr>incoming = [], sent = [], budget = None, closed = False\<rparr>
             \<lparr>rsize = defaultBufSize, pending = []\<rparr>"

text \<open>
  Claim C9, an instance: the write of \<open>hello\<close> puts \<open>5\<close>, CR LF, \<open>hello\<close>, CR LF
  on the stream and returns 0.
\<close>
theorem chunkedWriter_Write_zero_witness:
  "''hello'' \<noteq> [] \<and> fst (chunkedWriter_Write conn0 ''hello'') = 0 \<and>
   fst (snd (chunkedWriter_Write conn0 ''hello'')) = None \<and>
   sent (netConn (snd (snd (chunkedWriter_Write conn0 ''hello'')))) =
     ''5'' @ CRLF @ ''hello'' @ CRLF"
proof -
  have e: "fst (snd (chunkedWriter_Write conn0 ''hello'')) = None" by code_simp
  have h: "chunkedWriter_Write conn0 ''hello'' =
      (fst (chunkedWriter_Write conn0 ''hello''), None, snd (snd (chunkedWriter_Write conn0 ''hello'')))"
    using e by (cases "chunkedWriter_Write conn0 ''hello''") simp
  have i: "Itob16 (length ''hello'') = ''5''" by code_simp
  have s0: "sent (netConn conn0) = []" by (simp add: conn0_def newConn_def)
  from chunkedWriter_Write_zero[OF _ h] e i s0 show ?thesis by simp
qed

text \<open>
  Claim C3, an instance: a response with a \<open>Content-Type\<close> header alone, committed on
  a fresh connection, is chunked and gets the header \<open>Transfer-Encoding: chunked\<close>.
\<close>
theorem Respond_chunked_iff_witness:
  "\<not> hijacked conn0 \<and> \<not> respondCalled conn0 \<and> wellFormed [(HeaderContentType, [''text/plain''])] \<and>
   fst (Respond conn0 200 [(HeaderContentType, [''text/plain''])]) \<and>
   chunked (snd (snd (Respond conn0 200 [(HeaderContentType, [''text/plain''])]))) \<and>
   index (fst (snd (Respond conn0 200 [(HeaderContentType, [''text/plain''])]))) HeaderTransferEncoding = [''chunked'']"
proof -
  have a: "\<not> hijacked conn0" "\<not> respondCalled conn0" by (simp_all add: conn0_def newConn_def)
  have w: "wellFormed [(HeaderContentType, [''text/plain''])]" by (simp add: wellFormed_def)
  have r: "Respond conn0 200 [(HeaderContentType, [''text/plain''])] =
     (fst (Respond conn0 200 [(HeaderContentType, [''text/plain''])]),
      fst (snd (Respond conn0 200 [(HeaderContentType, [''text/plain''])])),
      snd (snd (Respond conn0 200 [(HeaderContentType, [''text/plain''])])))" by simp
  have n: "\<not> found [(HeaderContentType, [''text/plain''])] HeaderContentLength"
     "\<not> found [(HeaderContentType, [''text/plain''])] HeaderTransferEncoding"
     "(200::int) \<noteq> StatusNotModified"
    by (simp_all add: found_def header_names_distinct StatusNotModified_def)
  have cl: "\<not> closeAfterResponse (snd (snd (Respond conn0 200 [(HeaderContentType, [''text/plain''])])))"
    using Respond_accepted[OF a, of 200 "[(HeaderContentType, [''text/plain''])]"]
    by (simp add: willClose_def conn0_def newConn_def)
  from Respond_chunked_iff[OF a w r] n cl a w show ?thesis by simp
qed

section \<open>The count of the response bytes that remain\<close>




















section \<open>Finalize and the declared length\<close>

text \<open>
  The examples: a peer that sends the request \<open>GET / HTTP/1.1\<close> (twice where the
  second cycle matters) and accepts every byte, the connection \<open>parsed\<close> after
  \<open>prepare\<close> has read the first request, and two handlers that commit a response with
  \<open>Content-Length: 39\<close> and write a body of 39 bytes, the first of them after a flush
  of the body sink.
\<close>
definition oneRequest :: string where
  "oneRequest = ''GET / HTTP/1.1'' @ CRLF @ CRLF"

definition peer :: "string \<Rightarrow> NetConn" where
  "peer s = \<lparr>incoming = s, sent = [], budget = None, closed = False\<rparr>"

definition rd :: "string \<Rightarrow> Reader" where
  "rd s = \<lparr>rsize = defaultBufSize, pending = s\<rparr>"

definition parsed :: "string conn" where
  "parsed = snd (prepare Some (newConn (peer (oneRequest @ oneRequest)) (rd (oneRequest @ oneRequest))))"







section \<open>Hijack\<close>

text \<open>A handler that takes over the connection and does nothing else.\<close>
definition hijacker :: "string conn \<Rightarrow> action list" where
  "hijacker c = [AHijack]"

text \<open>
  Claim C2 fails on the code.  \<open>conn.Hijack\<close> is a bare \<open>return\<close>: it returns no
  connection and no buffered bytes and does not set \<open>hijacked\<close>.  After a handler that
  called it the loop runs \<open>finish\<close>, which writes the default response to the
  stream, reads the stream again for the next request, and closes the stream.
\<close>
theorem Hijack_returns_nothing:
  "fst (Hijack parsed) = (None, None, None) \<and> \<not> hijacked (snd (Hijack parsed)) \<and>
   fst (serveConnection Some (peer oneRequest) hijacker) = 1 \<and>
   sent (snd (serveConnection Some (peer oneRequest) hijacker)) =
     ''HTTP/1.1 200 OK'' @ CRLF @ ''Content-Type: text/html charset=utf-8'' @ CRLF @
     ''Transfer-Encoding: chunked'' @ CRLF @ CRLF @ ''0'' @ CRLF @ CRLF \<and>
   closed (snd (serveConnection Some (peer oneRequest) hijacker))"
  by code_simp

section \<open>The names of a pattern\<close>

text \<open>
  The placeholders of a pattern from left to right, by their names: the matches of
  \<open>parameterRegexp\<close>, each sought in the text after the one before.  A placeholder
  \<open><>\<close> or \<open><:expr>\<close> has the empty name.
\<close>
function placeholders :: "string \<Rightarrow> string list" where
  "placeholders pattern =
     (case findParameter pattern of
        None \<Rightarrow> []
      | Some (pre, name, sub, rest) \<Rightarrow> name # placeholders rest)"
  by pat_completeness auto
termination
  by (relation "measure length") (auto simp: findParameter_shorter)

declare placeholders.simps [simp del]

definition namedPlaceholders :: "string \<Rightarrow> string list" where
  "namedPlaceholders pattern = filter (\<lambda>name. name \<noteq> []) (placeholders pattern)"

lemma compilePattern_loop_names:
  "length ns = 8 \<Longrightarrow> i \<le> 8 \<Longrightarrow>
   (if 8 < i + length (namedPlaceholders pattern)
    then compilePattern_loop pattern buf ns i sep = Inl (Panic ''index out of range'')
    else (\<exists>buf' ns'. compilePattern_loop pattern buf ns i sep =
            Inr (buf', ns', i + length (namedPlaceholders pattern)) \<and>
            length ns' = 8 \<and>
            take (i + length (namedPlaceholders pattern)) ns' =
              take i ns @ namedPlaceholders pattern))"
proof (induction pattern buf ns i sep rule: compilePattern_loop.induct)
  case (1 pattern buf ns i sep)
  show ?case
  proof (cases "findParameter pattern")
    case None
    then have "namedPlaceholders pattern = []"
      by (simp add: namedPlaceholders_def placeholders.simps[of pattern])
    with None "1.prems" show ?thesis
      by (simp add: compilePattern_loop.simps[of pattern])
  next
    case (Some t)
    obtain pre name sub rest where t: "t = (pre, name, sub, rest)" by (cases t) auto
    note fp = Some[unfolded t]
    have np: "namedPlaceholders pattern =
              (if name \<noteq> [] then [name] else []) @ namedPlaceholders rest"
      using fp by (simp add: namedPlaceholders_def placeholders.simps[of pattern])
    note ih = "1.IH"[OF fp refl refl refl refl _ refl refl refl refl refl]
    show ?thesis
    proof (cases "name = []")
      case True
      have step: "compilePattern_loop pattern buf ns i sep =
          compilePattern_loop rest
            (case sub of Some e \<Rightarrow> (buf @ QuoteMeta pre) @ e
                       | None \<Rightarrow> (buf @ QuoteMeta pre) @ ''[^'' @ sep @ '']+'') ns i sep"
        using fp True by (subst compilePattern_loop.simps) (simp add: Let_def)
      from True have neg: "\<not> (name \<noteq> [] \<and> length ns \<le> i)" by simp
      have l: "length (if name \<noteq> [] then ns[i := name] else ns) = 8"
        using "1.prems" by simp
      have b: "(if name \<noteq> [] then i + 1 else i) \<le> 8" using True "1.prems" by simp
      from ih[OF neg l b] show ?thesis
        by (simp add: True step np Let_def split: if_splits)
    next
      case nn: False
      show ?thesis
      proof (cases "length ns \<le> i")
        case True
        with nn fp "1.prems" np show ?thesis
          by (simp add: compilePattern_loop.simps[of pattern] Let_def)
      next
        case False
        with "1.prems" have ii: "i < 8" by simp
        have step: "compilePattern_loop pattern buf ns i sep =
            compilePattern_loop rest
              ((case sub of Some e \<Rightarrow> ((buf @ QuoteMeta pre) @ ''('') @ e
                          | None \<Rightarrow> ((buf @ QuoteMeta pre) @ ''('') @ ''[^'' @ sep @ '']+'') @ '')'')
              (ns[i := name]) (i + 1) sep"
          using fp nn False by (subst compilePattern_loop.simps) (simp add: Let_def)
        have tk: "take (Suc i) (ns[i := name]) = take i ns @ [name]"
          using ii "1.prems" by (simp add: take_Suc_conv_app_nth)
        from False have neg: "\<not> (name \<noteq> [] \<and> length ns \<le> i)" by simp
        have l: "length (if name \<noteq> [] then ns[i := name] else ns) = 8"
          using "1.prems" by simp
        have b: "(if name \<noteq> [] then i + 1 else i) \<le> 8" using ii by simp
        from ih[OF neg l b] show ?thesis
          by (simp add: nn step np tk Let_def add.assoc split: if_splits)
      qed
    qed
  qed
qed

lemma placeholders_Nil: "namedPlaceholders [] = []"
  by (simp add: namedPlaceholders_def placeholders.simps[of "[]"])

text \<open>
  Claim C10.  A pattern with more than 8 named placeholders makes the pattern
  compiler panic with an index out of range, whatever the separator and the
  trailing-slash flag: the array of names has 8 places and the ninth name is stored at
  index 8.  So registering such a pattern as a host pattern panics, and registering it
  as a path pattern does once the checks of \<open>Register\<close> that come before the compiler
  have passed (the pattern starts with a slash, the handlers come in pairs).
\<close>
theorem compilePattern_names_overflow:
  assumes "8 < length (namedPlaceholders pattern)"
  shows "compilePattern MustCompile pattern slash sep = Inl (Panic ''index out of range'') \<and>
         HostRouter_Register MustCompile hostRouter pattern handler =
           Inl (Panic ''index out of range'') \<and>
         (pattern ! 0 = CHR ''/'' \<and> hs \<noteq> [] \<and> even (length hs) \<longrightarrow>
          Register MustCompile router pattern hs = Inl (Panic ''index out of range''))"
proof -
  have l: "compilePattern_loop pattern ''^'' (replicate 8 []) 0 sep' =
           Inl (Panic ''index out of range'')" for sep'
    using compilePattern_loop_names[of "replicate 8 []" 0 pattern "''^''" sep'] assms by simp
  then have c: "compilePattern MustCompile pattern sl sep' = Inl (Panic ''index out of range'')"
    for sl sep'
    by (simp add: compilePattern_def)
  from assms have ne: "pattern \<noteq> []" using placeholders_Nil by auto
  from c ne show ?thesis
    by (auto simp: HostRouter_Register_def Register_def Let_def)
qed

text \<open>A path pattern with nine named placeholders.\<close>
definition ninePlaceholders :: string where
  "ninePlaceholders = ''/<a>/<b>/<c>/<d>/<e>/<f>/<g>/<h>/<i>''"

text \<open>Claim C10, an instance: the pattern with nine names.\<close>
theorem compilePattern_names_overflow_witness:
  "8 < length (namedPlaceholders ninePlaceholders) \<and>
   ninePlaceholders ! 0 = CHR ''/'' \<and>
   compilePattern (\<lambda>s. None) ninePlaceholders False ''/'' = Inl (Panic ''index out of range'') \<and>
   HostRouter_Register (\<lambda>s. None) \<lparr>defaultHandler = (), h_routes = []\<rparr> ninePlaceholders () =
     Inl (Panic ''index out of range'') \<and>
   Register (\<lambda>s. None) \<lparr>routes = []\<rparr> ninePlaceholders [IString ''GET'', IHandler ()] =
     Inl (Panic ''index out of range'')"
proof -
  have n: "8 < length (namedPlaceholders ninePlaceholders)" by code_simp
  have s: "ninePlaceholders ! 0 = CHR ''/''" by code_simp
  from compilePattern_names_overflow[OF n, of "\<lambda>s. None" False "''/''"
      "\<lparr>defaultHandler = (), h_routes = []\<rparr>" "()" "[IString ''GET'', IHandler ()]"
      "\<lparr>routes = []\<rparr>"] n s
  show ?thesis by simp
qed

section \<open>Dispatch\<close>

lemma find_loop_skip:
  "\<forall>q\<in>set pre. regexp q path = [] \<Longrightarrow>
   find_loop (pre @ rs) path method = find_loop rs path method"
  by (induction pre) (auto simp: Let_def)

text \<open>
  Claim C4, amended.  Let \<open>r\<close> be the first registered route whose expression matches
  the path, in registration order.  Unless \<open>r\<close> asks for a trailing slash that the
  path lacks, and provided every captured value can be unescaped, the handler is that of
  the request method; else, for \<open>HEAD\<close>, the handler of \<open>GET\<close>; else the handler of
  \<open>*\<close>; else the answer is 405 Method Not Allowed.  The routes after \<open>r\<close> play no
  part.  When no route matches the path the answer is 404 Not Found.
\<close>
theorem find_method_resolution:
  "(routes router = pre @ r # post \<and> (\<forall>q\<in>set pre. regexp q path = []) \<and>
    regexp r path \<noteq> [] \<and> (addSlash r \<longrightarrow> path \<noteq> [] \<and> last path = CHR ''/'') \<and>
    unescapeValues (drop 1 (regexp r path)) = Some vs \<longrightarrow>
    find router path method =
      Inr (case handlers r method of
             Some h \<Rightarrow> (App h, names r, vs)
           | None \<Rightarrow>
               (case (if method = ''HEAD'' then handlers r ''GET'' else None) of
                  Some h \<Rightarrow> (App h, names r, vs)
                | None \<Rightarrow>
                    (case handlers r ''*'' of
                       Some h \<Rightarrow> (App h, names r, vs)
                     | None \<Rightarrow> (RouterError StatusMethodNotAllowed, [], []))))) \<and>
   ((\<forall>q\<in>set (routes router). regexp q path = []) \<longrightarrow>
    find router path method = Inr (RouterError StatusNotFound, [], []))"
proof (intro conjI impI)
  assume a: "routes router = pre @ r # post \<and> (\<forall>q\<in>set pre. regexp q path = []) \<and>
    regexp r path \<noteq> [] \<and> (addSlash r \<longrightarrow> path \<noteq> [] \<and> last path = CHR ''/'') \<and>
    unescapeValues (drop 1 (regexp r path)) = Some vs"
  then have sk: "find router path method = find_loop (r # post) path method"
    by (simp add: find_def find_loop_skip)
  from a have sl: "\<not> (addSlash r \<and> path = [])"
    "\<not> (addSlash r \<and> path ! (length path - 1) \<noteq> CHR ''/'')"
    by (auto simp: last_conv_nth)
  from a sl show "find router path method =
      Inr (case handlers r method of
             Some h \<Rightarrow> (App h, names r, vs)
           | None \<Rightarrow>
               (case (if method = ''HEAD'' then handlers r ''GET'' else None) of
                  Some h \<Rightarrow> (App h, names r, vs)
                | None \<Rightarrow>
                    (case handlers r ''*'' of
                       Some h \<Rightarrow> (App h, names r, vs)
                     | None \<Rightarrow> (RouterError StatusMethodNotAllowed, [], []))))"
    unfolding sk by (auto simp: Let_def split: option.splits)
next
  assume "\<forall>q\<in>set (routes router). regexp q path = []"
  from find_loop_skip[of "routes router" path "[]" "method", OF this]
  show "find router path method = Inr (RouterError StatusNotFound, [], [])"
    by (simp add: find_def)
qed


text \<open>
  The examples.  \<open>MustCompileEx\<close> is \<open>regexp.MustCompile\<close> on the three expressions
  that registering the patterns \<open>/\<close>, \<open>/user/<id>\<close> and \<open>/x\<close> builds; the matchers
  are \<open>FindStringSubmatch\<close> of these expressions.  A handler is named by a string.
\<close>
definition matchRoot :: Regexp where
  "matchRoot p = (if p = [] \<or> p = ''/'' then [p] else [])"

definition matchUser :: Regexp where
  "matchUser p =
     (if take 6 p = ''/user/'' \<and> drop 6 p \<noteq> [] \<and> CHR ''/'' \<notin> set (drop 6 p)
      then [p, drop 6 p] else [])"

definition matchX :: Regexp where
  "matchX p = (if p = ''/x'' then [p] else [])"

definition MustCompileEx :: "string \<Rightarrow> Regexp option" where
  "MustCompileEx e =
     (if e = ''^/?$'' then Some matchRoot
      else if e = ''^/user/([^/]+)$'' then Some matchUser
      else if e = ''^/x$'' then Some matchX
      else None)"

definition rootRoute :: "string route" where
  "rootRoute = \<lparr>addSlash = True, regexp = matchRoot, names = [],
                 handlers = [''GET'' \<mapsto> ''root'']\<rparr>"

definition userRoute :: "string route" where
  "userRoute = \<lparr>addSlash = False, regexp = matchUser, names = [''id''],
                 handlers = [''GET'' \<mapsto> ''showUser'']\<rparr>"

definition xRoute :: "string route" where
  "xRoute = \<lparr>addSlash = False, regexp = matchX, names = [],
              handlers = [''GET'' \<mapsto> ''getX'']\<rparr>"

definition xStarRoute :: "string route" where
  "xStarRoute = \<lparr>addSlash = False, regexp = matchX, names = [],
                  handlers = [''GET'' \<mapsto> ''getX'', ''*'' \<mapsto> ''anyX'']\<rparr>"

lemma compile_root:
  "compilePattern MustCompileEx ''/'' True ''/'' = Inr (matchRoot, [])"
proof -
  have "compilePattern_loop ''/'' ''^'' (replicate 8 []) 0 ''/'' =
        Inr (''^/'', replicate 8 [], 0)" by code_simp
  then show ?thesis by (simp add: compilePattern_def MustCompileEx_def)
qed

lemma compile_user:
  "compilePattern MustCompileEx ''/user/<id>'' False ''/'' = Inr (matchUser, [''id''])"
proof -
  have "compilePattern_loop ''/user/<id>'' ''^'' (replicate 8 []) 0 ''/'' =
        Inr (''^/user/([^/]+)'', [''id'', [], [], [], [], [], [], []], 1)" by code_simp
  then show ?thesis by (simp add: compilePattern_def MustCompileEx_def)
qed

lemma compile_x:
  "compilePattern MustCompileEx ''/x'' False ''/'' = Inr (matchX, [])"
proof -
  have "compilePattern_loop ''/x'' ''^'' (replicate 8 []) 0 ''/'' =
        Inr (''^/x'', replicate 8 [], 0)" by code_simp
  then show ?thesis by (simp add: compilePattern_def MustCompileEx_def)
qed

lemma Register_root:
  "Register MustCompileEx \<lparr>routes = []\<rparr> ''/'' [IString ''GET'', IHandler ''root''] =
   Inr \<lparr>routes = [rootRoute]\<rparr>"
  by (simp add: Register_def compile_root rootRoute_def)

lemma Register_user:
  "Register MustCompileEx \<lparr>routes = []\<rparr> ''/user/<id>'' [IString ''GET'', IHandler ''showUser''] =
   Inr \<lparr>routes = [userRoute]\<rparr>"
  by (simp add: Register_def compile_user userRoute_def)

lemma Register_x:
  "Register MustCompileEx \<lparr>routes = []\<rparr> ''/x'' [IString ''GET'', IHandler ''getX''] =
   Inr \<lparr>routes = [xRoute]\<rparr>"
  by (simp add: Register_def compile_x xRoute_def)

lemma Register_xStar:
  "Register MustCompileEx \<lparr>routes = []\<rparr> ''/x''
     [IString ''GET'', IHandler ''getX'', IString ''*'', IHandler ''anyX''] =
   Inr \<lparr>routes = [xStarRoute]\<rparr>"
  by (simp add: Register_def compile_x xStarRoute_def)

text \<open>
  Claim C4, instances: a route for \<open>/x\<close> with a \<open>GET\<close> handler serves \<open>GET\<close> and
  \<open>HEAD\<close> and answers \<open>POST\<close> with 405; with a \<open>*\<close> handler as well it serves
  \<open>DELETE\<close> by that; the path \<open>/y\<close> matches no route and is answered with 404.
\<close>
theorem find_method_resolution_witness:
  "Register MustCompileEx \<lparr>routes = []\<rparr> ''/x'' [IString ''GET'', IHandler ''getX''] =
     Inr \<lparr>routes = [xRoute]\<rparr> \<and>
   regexp xRoute ''/x'' \<noteq> [] \<and> \<not> addSlash xRoute \<and>
   unescapeValues (drop 1 (regexp xRoute ''/x'')) = Some [] \<and>
   find \<lparr>routes = [xRoute]\<rparr> ''/x'' ''GET'' = Inr (App ''getX'', [], []) \<and>
   find \<lparr>routes = [xRoute]\<rparr> ''/x'' ''HEAD'' = Inr (App ''getX'', [], []) \<and>
   find \<lparr>routes = [xRoute]\<rparr> ''/x'' ''POST'' = Inr (RouterError StatusMethodNotAllowed, [], []) \<and>
   find \<lparr>routes = [xStarRoute]\<rparr> ''/x'' ''DELETE'' = Inr (App ''anyX'', [], []) \<and>
   regexp xRoute ''/y'' = [] \<and>
   find \<lparr>routes = [xRoute]\<rparr> ''/y'' ''GET'' = Inr (RouterError StatusNotFound, [], [])"
proof -
  have m: "regexp xRoute ''/x'' \<noteq> []" "\<not> addSlash xRoute"
    "unescapeValues (drop 1 (regexp xRoute ''/x'')) = Some []"
    "regexp xStarRoute ''/x'' \<noteq> []" "\<not> addSlash xStarRoute"
    "unescapeValues (drop 1 (regexp xStarRoute ''/x'')) = Some []"
    "regexp xRoute ''/y'' = []"
    by (simp_all add: xRoute_def xStarRoute_def matchX_def)
  have h: "handlers xRoute ''GET'' = Some ''getX''" "handlers xRoute ''HEAD'' = None"
    "handlers xRoute ''POST'' = None" "handlers xRoute ''*'' = None"
    "handlers xStarRoute ''DELETE'' = None" "handlers xStarRoute ''*'' = Some ''anyX''"
    "names xRoute = []" "names xStarRoute = []"
    by (simp_all add: xRoute_def xStarRoute_def)
  note t = find_method_resolution[of "\<lparr>routes = [xRoute]\<rparr>" "[]" xRoute "[]" _ "[]"]
  note u = find_method_resolution[of "\<lparr>routes = [xStarRoute]\<rparr>" "[]" xStarRoute "[]" _ "[]"]
  from t[of "''/x''" "''GET''"] m h
  have 1: "find \<lparr>routes = [xRoute]\<rparr> ''/x'' ''GET'' = Inr (App ''getX'', [], [])" by simp
  from t[of "''/x''" "''HEAD''"] m h
  have 2: "find \<lparr>routes = [xRoute]\<rparr> ''/x'' ''HEAD'' = Inr (App ''getX'', [], [])" by simp
  from t[of "''/x''" "''POST''"] m h
  have 3: "find \<lparr>routes = [xRoute]\<rparr> ''/x'' ''POST'' =
           Inr (RouterError StatusMethodNotAllowed, [], [])" by simp
  from u[of "''/x''" "''DELETE''"] m h
  have 4: "find \<lparr>routes = [xStarRoute]\<rparr> ''/x'' ''DELETE'' = Inr (App ''anyX'', [], [])" by simp
  from t[of "''/y''" "''GET''"] m
  have 5: "find \<lparr>routes = [xRoute]\<rparr> ''/y'' ''GET'' = Inr (RouterError StatusNotFound, [], [])"
    by simp
  from Register_x m 1 2 3 4 5 show ?thesis by simp
qed

text \<open>
  Claim C4 as stated fails: the path \<open>/user/100%\<close> matches the route registered for
  \<open>/user/<id>\<close>, which has a handler for \<open>GET\<close>, but the captured value \<open>100%\<close>
  cannot be unescaped and the answer to \<open>GET\<close> is 404 Not Found, not that handler.
\<close>
theorem find_unescape_failure:
  "Register MustCompileEx \<lparr>routes = []\<rparr> ''/user/<id>'' [IString ''GET'', IHandler ''showUser''] =
     Inr \<lparr>routes = [userRoute]\<rparr> \<and>
   regexp userRoute ''/user/100%'' = [''/user/100%'', ''100%''] \<and>
   handlers userRoute ''GET'' = Some ''showUser'' \<and>
   find \<lparr>routes = [userRoute]\<rparr> ''/user/100%'' ''GET'' = Inr (RouterError StatusNotFound, [], [])"
  by (simp add: Register_user find_def userRoute_def matchUser_def Let_def)

text \<open>
  Claim C8 fails on the code at the empty path.  The route registered for \<open>/\<close>
  (\<open>rootRoute\<close>, by \<open>Register_root\<close>) has the trailing-slash flag and its expression
  \<open>^/?$\<close> matches the empty path, which does not end with a slash; \<open>find\<close> then
  reads \<open>path[len(path)-1]\<close> and panics, where the claim has a redirect to \<open>/\<close>.
\<close>
theorem find_empty_path_panics:
  "addSlash rootRoute \<and> regexp rootRoute [] = [[]] \<and>
   find \<lparr>routes = [rootRoute]\<rparr> [] ''GET'' = Inl (Panic ''index out of range'') \<and>
   ServeWeb \<lparr>routes = [rootRoute]\<rparr>
     \<lparr>Path = [], RawQuery = [], ReqMethod = ''GET'', URLParam = Map.empty\<rparr> =
     Inl (Panic ''index out of range'')"
  by (simp add: find_def ServeWeb_def rootRoute_def matchRoot_def Let_def)

text \<open>
  On a path that is not empty the redirect is as claim C8 has it: it comes before the
  captured values are unescaped and before the method is looked up, and its target is
  the path, a slash, and the query after a question mark when there is one.
\<close>
lemma find_redirect:
  assumes "routes router = pre @ r # post" and "\<forall>q\<in>set pre. regexp q path = []"
    and "regexp r path \<noteq> []" and "addSlash r" and "path \<noteq> []" and "last path \<noteq> CHR ''/''"
  shows "find router path method = Inr (AddSlash, [], [])"
    and "Path rq = path \<Longrightarrow> ReqMethod rq = method \<Longrightarrow>
         ServeWeb router rq =
           Inr (CallRedirect
                  (if RawQuery rq = [] then path @ ''/'' else path @ ''/'' @ ''?'' @ RawQuery rq)
                  True)"
proof -
  from assms show f: "find router path method = Inr (AddSlash, [], [])"
    by (simp add: find_def find_loop_skip Let_def last_conv_nth)
  assume "Path rq = path" "ReqMethod rq = method"
  with f show "ServeWeb router rq =
           Inr (CallRedirect
                  (if RawQuery rq = [] then path @ ''/'' else path @ ''/'' @ ''?'' @ RawQuery rq)
                  True)"
    by (simp add: ServeWeb_def addSlash_func_def Let_def)
qed

section \<open>The limits of header parsing\<close>

lemma readHeaders_loop_Inl:
  "ReadSlice b = (Inl err, b') \<Longrightarrow>
   readHeaders_loop b lastKey headerCount header = (Some err, header, b')"
  by (subst readHeaders_loop.simps) simp

lemma readHeaders_loop_leave:
  "ReadSlice b = (Inr p0, b') \<Longrightarrow> headerLine p0 lastKey headerCount header = Inl r \<Longrightarrow>
   readHeaders_loop b lastKey headerCount header = (r, header, b')"
  by (subst readHeaders_loop.simps) simp

lemma readHeaders_loop_again:
  "ReadSlice b = (Inr p0, b') \<Longrightarrow>
   headerLine p0 lastKey headerCount header = Inr (lastKey', headerCount', header') \<Longrightarrow>
   readHeaders_loop b lastKey headerCount header =
   readHeaders_loop b' lastKey' headerCount' header'"
  by (subst readHeaders_loop.simps) simp

text \<open>The three limits, at the line where the parser meets them.\<close>

lemma headerLine_too_long:
  "maxLineSize < length (chomp p0) \<Longrightarrow>
   headerLine p0 lastKey headerCount header = Inl (Some (ErrorString ''header line too long''))"
  by (auto simp: headerLine_def Let_def)

lemma headerLine_value_too_long:
  "chomp p0 \<noteq> [] \<Longrightarrow> length (chomp p0) \<le> maxLineSize \<Longrightarrow> IsSpaceByte (chomp p0 ! 0) \<Longrightarrow>
   lastKey \<noteq> [] \<Longrightarrow> trimWSLeft (trimWSRight (chomp p0)) \<noteq> [] \<Longrightarrow>
   index header lastKey \<noteq> [] \<Longrightarrow>
   maxValueSize < length (last (index header lastKey) @ '' '' @ trimWSLeft (trimWSRight (chomp p0))) \<Longrightarrow>
   headerLine p0 lastKey headerCount header = Inl (Some (ErrorString ''header value too long''))"
  by (simp add: headerLine_def Let_def)

lemma headerLine_too_many:
  "chomp p0 \<noteq> [] \<Longrightarrow> length (chomp p0) \<le> maxLineSize \<Longrightarrow> \<not> IsSpaceByte (chomp p0 ! 0) \<Longrightarrow>
   maxHeaderCount \<le> headerCount \<Longrightarrow>
   headerLine p0 lastKey headerCount header = Inl (Some (ErrorString ''too many headers''))"
  by (simp add: headerLine_def Let_def)

text \<open>The lines of a header block, without their terminators, up to the empty line.\<close>
function blockLines :: "Reader \<Rightarrow> string list" where
  "blockLines b =
     (case ReadSlice b of
        (Inl err, b') \<Rightarrow> []
      | (Inr p0, b') \<Rightarrow> if chomp p0 = [] then [] else chomp p0 # blockLines b')"
  by pat_completeness auto
termination
  by (relation "measure (\<lambda>b. length (pending b))") (auto dest: ReadSlice_shorter[OF sym])

declare blockLines.simps [simp del]

text \<open>Every value of the header map is within the limit on a value.\<close>
definition valuesWithin :: "StringsMap \<Rightarrow> bool" where
  "valuesWithin header = (\<forall>k. \<forall>v\<in>set (index header k). length v \<le> maxValueSize)"

lemma length_trimWSLeft: "length (trimWSLeft p) \<le> length p"
  by (simp add: trimWSLeft_def)

lemma length_trimWSRight: "length (trimWSRight p) \<le> length p"
  using length_dropWhile_le[of IsSpaceByte "rev p"] by (simp add: trimWSRight_def)

lemma index_update: "index (AList.update k vs m) k' = (if k' = k then vs else index m k')"
  by (simp add: index_def update_conv')

lemma headerLine_Inr:
  assumes "headerLine p0 lastKey headerCount header = Inr (lastKey', headerCount', header')"
  shows "chomp p0 \<noteq> [] \<and> length (chomp p0) \<le> maxLineSize \<and>
         headerCount' = headerCount + (if IsSpaceByte (chomp p0 ! 0) then 0 else 1) \<and>
         (headerCount \<le> maxHeaderCount \<longrightarrow> headerCount' \<le> maxHeaderCount) \<and>
         (valuesWithin header \<longrightarrow> valuesWithin header')"
proof -
  let ?p = "chomp p0"
  from assms have ne: "?p \<noteq> []" and le: "length ?p \<le> maxLineSize"
    by (auto simp: headerLine_def Let_def split: if_splits)
  show ?thesis
  proof (cases "IsSpaceByte (?p ! 0)")
    case True
    let ?q = "trimWSLeft (trimWSRight ?p)"
    show ?thesis
    proof (cases "?q = []")
      case True
      with assms ne le \<open>IsSpaceByte (?p ! 0)\<close> show ?thesis
        by (auto simp: headerLine_def Let_def split: if_splits)
    next
      case False
      let ?vs = "index header lastKey"
      let ?v = "last ?vs @ '' '' @ ?q"
      from assms ne le \<open>IsSpaceByte (?p ! 0)\<close> False
      have r: "lastKey \<noteq> []" "?vs \<noteq> []" "length ?v \<le> maxValueSize"
        "headerCount' = headerCount"
        "header' = AList.update lastKey (butlast ?vs @ [?v]) header"
        by (auto simp: headerLine_def Let_def split: if_splits)
      have "valuesWithin header'" if w: "valuesWithin header"
        unfolding valuesWithin_def
      proof (intro allI ballI)
        fix k v assume v: "v \<in> set (index header' k)"
        show "length v \<le> maxValueSize"
        proof (cases "k = lastKey")
          case True
          with v r(5) have "v \<in> set (butlast ?vs) \<or> v = ?v" by (auto simp: index_update)
          then show ?thesis
          proof
            assume "v \<in> set (butlast ?vs)"
            then have "v \<in> set ?vs" by (rule in_set_butlastD)
            with w show ?thesis by (auto simp: valuesWithin_def)
          next
            assume "v = ?v"
            with r(3) show ?thesis by simp
          qed
        next
          case False
          with v r(5) have "v \<in> set (index header k)" by (simp add: index_update)
          with w show ?thesis by (auto simp: valuesWithin_def)
        qed
      qed
      with ne le r \<open>IsSpaceByte (?p ! 0)\<close> show ?thesis by simp
    qed
  next
    case False
    let ?i = "skipBytes ?p IsTokenByte"
    let ?key = "HeaderNameBytes (take ?i ?p)"
    let ?p1 = "trimWSLeft (drop ?i ?p)"
    let ?val = "trimWSRight (trimWSLeft (drop 1 ?p1))"
    from assms ne le False
    have r: "headerCount' = headerCount + 1" "headerCount' \<le> maxHeaderCount"
      "header' = Append header ?key ?val"
      by (auto simp: headerLine_def Let_def split: if_splits)
    have "length ?val \<le> length (drop 1 ?p1)"
      using length_trimWSRight[of "trimWSLeft (drop 1 ?p1)"] length_trimWSLeft[of "drop 1 ?p1"]
      by simp
    also have "\<dots> \<le> length ?p1" by simp
    also have "\<dots> \<le> length ?p" using length_trimWSLeft[of "drop ?i ?p"] by simp
    finally have lv: "length ?val \<le> maxValueSize" using le
      by (simp add: maxLineSize_def maxValueSize_def)
    have "valuesWithin header'" if w: "valuesWithin header"
      unfolding valuesWithin_def
    proof (intro allI ballI)
      fix k v assume v: "v \<in> set (index header' k)"
      show "length v \<le> maxValueSize"
      proof (cases "k = ?key")
        case True
        with v r(3) have "v \<in> set (index header ?key) \<or> v = ?val"
          by (auto simp: Append_def index_update)
        with w lv show ?thesis by (auto simp: valuesWithin_def)
      next
        case False
        with v r(3) have "v \<in> set (index header k)" by (simp add: Append_def index_update)
        with w show ?thesis by (auto simp: valuesWithin_def)
      qed
    qed
    with ne le r False show ?thesis by simp
  qed
qed

lemma headerLine_Inl_None:
  "headerLine p0 lastKey headerCount header = Inl None \<Longrightarrow> chomp p0 = []"
  by (auto simp: headerLine_def Let_def split: if_splits)

text \<open>A line that starts a header: it does not begin with whitespace.\<close>
definition isHeaderLine :: "string \<Rightarrow> bool" where
  "isHeaderLine p = (\<not> IsSpaceByte (p ! 0))"

lemma readHeaders_loop_within:
  "readHeaders_loop b lastKey headerCount header = (None, header', b'') \<Longrightarrow>
   headerCount \<le> maxHeaderCount \<Longrightarrow>
   list_all (\<lambda>p. length p \<le> maxLineSize) (blockLines b) \<and>
   headerCount + length (filter isHeaderLine (blockLines b)) \<le> maxHeaderCount \<and>
   (valuesWithin header \<longrightarrow> valuesWithin header')"
proof (induction b lastKey headerCount header rule: readHeaders_loop.induct)
  case (1 b lastKey headerCount header)
  obtain r b1 where rs: "ReadSlice b = (r, b1)" by (cases "ReadSlice b") auto
  show ?case
  proof (cases r)
    case (Inl err)
    with rs "1.prems" show ?thesis by (simp add: readHeaders_loop_Inl)
  next
    case (Inr p0)
    note rs' = rs[unfolded Inr]
    show ?thesis
    proof (cases "headerLine p0 lastKey headerCount header")
      case (Inl res)
      with rs' "1.prems" have "res = None" "header' = header"
        by (simp_all add: readHeaders_loop_leave)
      with Inl have "chomp p0 = []" by (simp add: headerLine_Inl_None)
      with rs' have "blockLines b = []" by (simp add: blockLines.simps[of b])
      then show ?thesis using \<open>header' = header\<close> "1.prems"(2) by simp
    next
      case (Inr t)
      obtain k' n' h2 where t: "t = (k', n', h2)" by (cases t) auto
      note hl = Inr[unfolded t]
      from rs' hl "1.prems" have l: "readHeaders_loop b1 k' n' h2 = (None, header', b'')"
        by (simp add: readHeaders_loop_again)
      from headerLine_Inr[OF hl] rs' "1.prems"(2) have
        bl: "blockLines b = chomp p0 # blockLines b1" and le: "length (chomp p0) \<le> maxLineSize"
        and n': "n' = headerCount + (if IsSpaceByte (chomp p0 ! 0) then 0 else 1)"
        and nm: "n' \<le> maxHeaderCount"
        and vw: "valuesWithin header \<longrightarrow> valuesWithin h2"
        by (simp_all add: blockLines.simps[of b])
      note ih = "1.IH"[OF rs'[symmetric] refl hl refl refl l nm]
      from ih bl le n' vw show ?thesis by (auto simp: isHeaderLine_def)
    qed
  qed
qed

lemma ReadSlice_line:
  assumes "pending b = p @ LF # rest" and "LF \<notin> set p"
  shows "ReadSlice b =
         (if length p < rsize b then (Inr (p @ [LF]), b\<lparr>pending := rest\<rparr>)
          else (Inl ErrBufferFull, b))"
proof -
  from assms(2) have "\<forall>x\<in>set p. x \<noteq> LF" by auto
  with assms(1) have "takeWhile (\<lambda>c. c \<noteq> LF) (pending b) = p"
    by simp
  with assms(1) show ?thesis by (simp add: ReadSlice_def Let_def)
qed

text \<open>
  Claim C5.  The limits are 4096 bytes for a line, 4096 bytes for a value and 256
  header lines.  Where the parser meets a line of more than 4096 bytes (without its
  terminator) it fails with "header line too long", unless the reader's buffer was too
  small to hold the line and the read itself failed with the buffer-full error; where
  folding a continuation line would make the value longer than 4096 bytes it fails
  with "header value too long"; where a header line comes after 256 header lines it
  fails with "too many headers".  Nothing is cut short: when a header block is parsed
  without an error, none of its lines is longer than 4096 bytes, it has at most 256
  header lines, and no value of the resulting map is longer than 4096 bytes if none
  of the map given was.
\<close>
theorem readHeaders_limits:
  "maxLineSize = 4096 \<and> maxValueSize = 4096 \<and> maxHeaderCount = 256 \<and>
   (ReadSlice b = (Inr p0, b') \<and> maxLineSize < length (chomp p0) \<longrightarrow>
    readHeaders_loop b lastKey headerCount header =
      (Some (ErrorString ''header line too long''), header, b')) \<and>
   (pending b = p @ LF # rest \<and> LF \<notin> set p \<and> maxLineSize < length (chomp (p @ [LF])) \<longrightarrow>
    fst (readHeaders_loop b lastKey headerCount header) = Some ErrBufferFull \<or>
    fst (readHeaders_loop b lastKey headerCount header) =
      Some (ErrorString ''header line too long'')) \<and>
   (ReadSlice b = (Inr p0, b') \<and> chomp p0 \<noteq> [] \<and> length (chomp p0) \<le> maxLineSize \<and>
    IsSpaceByte (chomp p0 ! 0) \<and> lastKey \<noteq> [] \<and> index header lastKey \<noteq> [] \<and>
    trimWSLeft (trimWSRight (chomp p0)) \<noteq> [] \<and>
    maxValueSize <
      length (last (index header lastKey) @ '' '' @ trimWSLeft (trimWSRight (chomp p0))) \<longrightarrow>
    readHeaders_loop b lastKey headerCount header =
      (Some (ErrorString ''header value too long''), header, b')) \<and>
   (ReadSlice b = (Inr p0, b') \<and> chomp p0 \<noteq> [] \<and> length (chomp p0) \<le> maxLineSize \<and>
    \<not> IsSpaceByte (chomp p0 ! 0) \<and> maxHeaderCount \<le> headerCount \<longrightarrow>
    readHeaders_loop b lastKey headerCount header =
      (Some (ErrorString ''too many headers''), header, b')) \<and>
   (readHeaders b header = (None, header', b') \<longrightarrow>
    list_all (\<lambda>q. length q \<le> maxLineSize) (blockLines b) \<and>
    length (filter isHeaderLine (blockLines b)) \<le> maxHeaderCount \<and>
    (valuesWithin header \<longrightarrow> valuesWithin header'))"
proof -
  have A: "readHeaders_loop b lastKey headerCount header =
      (Some (ErrorString ''header line too long''), header, b')"
    if "ReadSlice b = (Inr p0, b') \<and> maxLineSize < length (chomp p0)"
    using that by (simp add: readHeaders_loop_leave headerLine_too_long)
  have A': "fst (readHeaders_loop b lastKey headerCount header) = Some ErrBufferFull \<or>
    fst (readHeaders_loop b lastKey headerCount header) =
      Some (ErrorString ''header line too long'')"
    if h: "pending b = p @ LF # rest \<and> LF \<notin> set p \<and> maxLineSize < length (chomp (p @ [LF]))"
  proof (cases "length p < rsize b")
    case True
    with h ReadSlice_line[of b p rest]
    have "ReadSlice b = (Inr (p @ [LF]), b\<lparr>pending := rest\<rparr>)" by simp
    with h show ?thesis by (simp add: readHeaders_loop_leave headerLine_too_long)
  next
    case False
    with h ReadSlice_line[of b p rest] have "ReadSlice b = (Inl ErrBufferFull, b)" by simp
    then show ?thesis by (simp add: readHeaders_loop_Inl)
  qed
  have B: "readHeaders_loop b lastKey headerCount header =
      (Some (ErrorString ''header value too long''), header, b')"
    if "ReadSlice b = (Inr p0, b') \<and> chomp p0 \<noteq> [] \<and> length (chomp p0) \<le> maxLineSize \<and>
    IsSpaceByte (chomp p0 ! 0) \<and> lastKey \<noteq> [] \<and> index header lastKey \<noteq> [] \<and>
    trimWSLeft (trimWSRight (chomp p0)) \<noteq> [] \<and>
    maxValueSize <
      length (last (index header lastKey) @ '' '' @ trimWSLeft (trimWSRight (chomp p0)))"
    using that by (simp add: readHeaders_loop_leave headerLine_value_too_long)
  have C: "readHeaders_loop b lastKey headerCount header =
      (Some (ErrorString ''too many headers''), header, b')"
    if "ReadSlice b = (Inr p0, b') \<and> chomp p0 \<noteq> [] \<and> length (chomp p0) \<le> maxLineSize \<and>
    \<not> IsSpaceByte (chomp p0 ! 0) \<and> maxHeaderCount \<le> headerCount"
    using that by (simp add: readHeaders_loop_leave headerLine_too_many)
  have D: "list_all (\<lambda>q. length q \<le> maxLineSize) (blockLines b) \<and>
    length (filter isHeaderLine (blockLines b)) \<le> maxHeaderCount \<and>
    (valuesWithin header \<longrightarrow> valuesWithin header')"
    if "readHeaders b header = (None, header', b')"
    using readHeaders_loop_within[of b "[]" 0 header header' b'] that
    by (simp add: readHeaders_def)
  show ?thesis using A A' B C D
    by (simp add: maxLineSize_def maxValueSize_def maxHeaderCount_def)
qed


section \<open>Continuation lines\<close>






text \<open>
  The examples for the limits: a line of 4097 bytes, a reader whose buffer holds it,
  and a value of 4090 bytes.
\<close>
definition longLine :: string where
  "longLine = replicate 4097 (CHR ''a'')"

definition bigReader :: "string \<Rightarrow> Reader" where
  "bigReader s = \<lparr>rsize = 8192, pending = s\<rparr>"

definition longValue :: string where
  "longValue = replicate 4090 (CHR ''v'')"

text \<open>
  Claim C5, instances: the line of 4097 bytes; the continuation \<open> abcdefgh\<close> of a
  value of 4090 bytes; a header line when 256 have been counted; and the block of the
  \<open>Cookie\<close> example, which parses and is within the limits.
\<close>
theorem readHeaders_limits_witness:
  "ReadSlice (bigReader (longLine @ [LF])) = (Inr (longLine @ [LF]), bigReader []) \<and>
   maxLineSize < length (chomp (longLine @ [LF])) \<and>
   readHeaders_loop (bigReader (longLine @ [LF])) [] 0 [] =
     (Some (ErrorString ''header line too long''), [], bigReader []) \<and>
   ReadSlice (rd ('' abcdefgh'' @ CRLF)) = (Inr ('' abcdefgh'' @ CRLF), rd []) \<and>
   maxValueSize < length (last (index [(''K'', [longValue])] ''K'') @ '' '' @ ''abcdefgh'') \<and>
   readHeaders_loop (rd ('' abcdefgh'' @ CRLF)) ''K'' 1 [(''K'', [longValue])] =
     (Some (ErrorString ''header value too long''), [(''K'', [longValue])], rd []) \<and>
   ReadSlice (rd (''A: b'' @ CRLF)) = (Inr (''A: b'' @ CRLF), rd []) \<and>
   readHeaders_loop (rd (''A: b'' @ CRLF)) ''Z'' 256 [] =
     (Some (ErrorString ''too many headers''), [], rd []) \<and>
   readHeaders (rd (''Cookie: a,'' @ CRLF @ '' b'' @ CRLF @ CRLF)) [] =
     (None, [(''Cookie'', [''a, b''])], rd []) \<and>
   list_all (\<lambda>q. length q \<le> maxLineSize)
     (blockLines (rd (''Cookie: a,'' @ CRLF @ '' b'' @ CRLF @ CRLF))) \<and>
   valuesWithin [(''Cookie'', [''a, b''])]"
proof -
  have nl: "LF \<notin> set longLine" by (simp add: longLine_def LF_def)
  have r1: "ReadSlice (bigReader (longLine @ [LF])) = (Inr (longLine @ [LF]), bigReader [])"
    using ReadSlice_line[of "bigReader (longLine @ [LF])" longLine "[]", OF _ nl]
    by (simp add: bigReader_def longLine_def)
  have c1: "chomp (longLine @ [LF]) = longLine"
    by (simp add: chomp_def longLine_def nth_append CR_def)
  have l1: "maxLineSize < length (chomp (longLine @ [LF]))"
    unfolding c1 by (simp add: longLine_def maxLineSize_def)
  note t1 = readHeaders_limits[of "bigReader (longLine @ [LF])" "longLine @ [LF]" "bigReader []"
      "[]" 0 "[]"]
  from t1 r1 l1 have a: "readHeaders_loop (bigReader (longLine @ [LF])) [] 0 [] =
     (Some (ErrorString ''header line too long''), [], bigReader [])" by blast
  have r2: "ReadSlice (rd ('' abcdefgh'' @ CRLF)) = (Inr ('' abcdefgh'' @ CRLF), rd [])"
    by code_simp
  have c2: "chomp ('' abcdefgh'' @ CRLF) = '' abcdefgh''"
    "trimWSLeft (trimWSRight '' abcdefgh'') = ''abcdefgh''"
    "IsSpaceByte ('' abcdefgh'' ! 0)" "length '' abcdefgh'' \<le> maxLineSize"
    by code_simp+
  have i2: "index [(''K'', [longValue])] ''K'' = [longValue]" by (simp add: index_def)
  have l2: "maxValueSize < length (last (index [(''K'', [longValue])] ''K'') @ '' '' @ ''abcdefgh'')"
    unfolding i2 by (simp add: longValue_def maxValueSize_def)
  note t2 = readHeaders_limits[of "rd ('' abcdefgh'' @ CRLF)" "'' abcdefgh'' @ CRLF" "rd []"
      "''K''" 1 "[(''K'', [longValue])]"]
  have h2: "ReadSlice (rd ('' abcdefgh'' @ CRLF)) = (Inr ('' abcdefgh'' @ CRLF), rd []) \<and>
    chomp ('' abcdefgh'' @ CRLF) \<noteq> [] \<and> length (chomp ('' abcdefgh'' @ CRLF)) \<le> maxLineSize \<and>
    IsSpaceByte (chomp ('' abcdefgh'' @ CRLF) ! 0) \<and> ''K'' \<noteq> [] \<and>
    index [(''K'', [longValue])] ''K'' \<noteq> [] \<and>
    trimWSLeft (trimWSRight (chomp ('' abcdefgh'' @ CRLF))) \<noteq> [] \<and>
    maxValueSize < length (last (index [(''K'', [longValue])] ''K'') @ '' '' @
      trimWSLeft (trimWSRight (chomp ('' abcdefgh'' @ CRLF))))"
    using r2 c2 i2 l2 by simp
  from t2 h2 have b: "readHeaders_loop (rd ('' abcdefgh'' @ CRLF)) ''K'' 1 [(''K'', [longValue])] =
     (Some (ErrorString ''header value too long''), [(''K'', [longValue])], rd [])"
    by blast
  have r3: "ReadSlice (rd (''A: b'' @ CRLF)) = (Inr (''A: b'' @ CRLF), rd [])" by code_simp
  have c3: "chomp (''A: b'' @ CRLF) = ''A: b''" "\<not> IsSpaceByte (''A: b'' ! 0)"
    "length ''A: b'' \<le> maxLineSize" by code_simp+
  note t3 = readHeaders_limits[of "rd (''A: b'' @ CRLF)" "''A: b'' @ CRLF" "rd []" "''Z''" 256 "[]"]
  have h3: "ReadSlice (rd (''A: b'' @ CRLF)) = (Inr (''A: b'' @ CRLF), rd []) \<and>
    chomp (''A: b'' @ CRLF) \<noteq> [] \<and> length (chomp (''A: b'' @ CRLF)) \<le> maxLineSize \<and>
    \<not> IsSpaceByte (chomp (''A: b'' @ CRLF) ! 0) \<and> maxHeaderCount \<le> 256"
    using r3 c3 by (simp add: maxHeaderCount_def)
  from t3 h3 have c: "readHeaders_loop (rd (''A: b'' @ CRLF)) ''Z'' 256 [] =
     (Some (ErrorString ''too many headers''), [], rd [])"
    by blast
  have r4: "readHeaders (rd (''Cookie: a,'' @ CRLF @ '' b'' @ CRLF @ CRLF)) [] =
     (None, [(''Cookie'', [''a, b''])], rd [])" by code_simp
  have v0: "valuesWithin []" by (simp add: valuesWithin_def index_def)
  note t4 = readHeaders_limits[of "rd (''Cookie: a,'' @ CRLF @ '' b'' @ CRLF @ CRLF)" _ "rd []"
      _ _ "[]" _ _ "[(''Cookie'', [''a, b''])]"]
  from t4 r4 v0 have d: "list_all (\<lambda>q. length q \<le> maxLineSize)
     (blockLines (rd (''Cookie: a,'' @ CRLF @ '' b'' @ CRLF @ CRLF)))"
    "valuesWithin [(''Cookie'', [''a, b''])]" by blast+
  from r1 l1 a r2 l2 b r3 c r4 d show ?thesis by simp
qed

section \<open>The interim response\<close>

definition isRead :: "action \<Rightarrow> bool" where
  "isRead a = (case a of ARead n \<Rightarrow> True | _ \<Rightarrow> False)"

definition isRespond :: "action \<Rightarrow> bool" where
  "isRespond a = (case a of ARespond status header \<Rightarrow> True | _ \<Rightarrow> False)"

text \<open>
  The number of calls of a run at which \<open>requestReader.Read\<close> reaches the write of the
  interim response: the read is not refused for a latched error and the interim
  response is owed.
\<close>
fun interims :: "action list \<Rightarrow> 'u conn \<Rightarrow> nat" where
  "interims [] c = 0"
| "interims (a # as) c =
     (if isRead a \<and> requestErr c = None \<and> write100Continue c then 1 else 0) +
     interims as (act a c)"

lemma prepare_flag:
  assumes "prepare ParseURL (newConn nc b) = (None, c)"
  shows "write100Continue c =
           (\<exists>s. Get (Header (req c)) HeaderExpect = Some s \<and> ToLower s = ''100-continue'') \<and>
         requestErr c = None \<and> bw c = None \<and> \<not> respondCalled c \<and> \<not> hijacked c"
proof -
  obtain e1 r b1 where rl: "readStatusLine ParseURL b NewRequest = (e1, r, b1)"
    by (cases "readStatusLine ParseURL b NewRequest") auto
  obtain e2 h b2 where rh: "readHeaders b1 (Header r) = (e2, h, b2)"
    by (cases "readHeaders b1 (Header r)") auto
  from assms rl have e1: "e1 = None" by (cases e1) (auto simp: prepare_def newConn_def)
  from assms rl rh e1 have e2: "e2 = None" by (cases e2) (auto simp: prepare_def newConn_def)
  from assms rl rh e1 e2 show ?thesis
    by (auto simp: prepare_def Let_def newConn_def
        split: option.splits prod.splits sum.splits if_splits)
qed

lemma Read_refused: "requestErr c \<noteq> None \<Longrightarrow> act (ARead n) c = c"
  by (simp add: requestReader_Read_def)

lemma Read_no_flag:
  "\<not> write100Continue c \<Longrightarrow> netConn (act (ARead n) c) = netConn c"
  by (auto simp: requestReader_Read_def Reader_Read_def Let_def split: if_splits prod.splits)

lemma Read_flag:
  assumes "requestErr c = None" "write100Continue c" "\<not> netConn_nil c"
    "budget (netConn c) = None"
  shows "sent (netConn (act (ARead n) c)) = sent (netConn c) @ continue100"
  using assms
  by (auto simp: requestReader_Read_def Reader_Read_def Let_def netConn_Write_def net_Write_def
      split: if_splits prod.splits)

lemma act_flag:
  "write100Continue (act a c) \<Longrightarrow> write100Continue c"
proof (cases a)
  case (ARespond st h)
  assume "write100Continue (act a c)"
  with ARespond Respond_netframe_fields[of c st h] show ?thesis
    by (cases "Respond c st h") auto
next
  case (AWrite p)
  assume "write100Continue (act a c)"
  with AWrite bw_Write_frame[of c p] show ?thesis
    by (cases "bw_Write c p") (auto simp: netframe_def split: if_splits)
next
  case AFlush
  assume "write100Continue (act a c)"
  with AFlush bw_Flush_frame[of c] show ?thesis
    by (cases "bw_Flush c") (auto simp: netframe_def split: if_splits)
next
  case (ARead n)
  assume "write100Continue (act a c)"
  with ARead show ?thesis
    by (auto simp: requestReader_Read_def Reader_Read_def Let_def split: if_splits prod.splits)
next
  case AHijack
  assume "write100Continue (act a c)"
  with AHijack show ?thesis by (simp add: Hijack_def)
qed

lemma Read_clears:
  "requestErr c = None \<Longrightarrow> \<not> write100Continue (act (ARead n) c)"
  by (auto simp: requestReader_Read_def Reader_Read_def Let_def split: if_splits prod.splits)

lemma interims_none: "\<not> write100Continue c \<Longrightarrow> interims as c = 0"
proof (induction as arbitrary: c)
  case Nil
  show ?case by simp
next
  case (Cons a as)
  from Cons.prems act_flag[of a c] have "\<not> write100Continue (act a c)" by blast
  from Cons.IH[OF this] Cons.prems show ?case by simp
qed

lemma interims_le: "interims as c \<le> 1"
proof (induction as arbitrary: c)
  case Nil
  show ?case by simp
next
  case (Cons a as)
  show ?case
  proof (cases "isRead a \<and> requestErr c = None \<and> write100Continue c")
    case True
    then obtain n where a: "a = ARead n" by (cases a) (auto simp: isRead_def)
    from True a Read_clears[of c n] have "\<not> write100Continue (act a c)" by simp
    from interims_none[OF this] True show ?thesis by simp
  next
    case False
    with Cons.IH[of "act a c"] show ?thesis by auto
  qed
qed

lemma run_before_commit:
  "bw c = None \<Longrightarrow> list_all (\<lambda>a. \<not> isRead a \<and> \<not> isRespond a) pre \<Longrightarrow> run pre c = c"
proof (induction pre)
  case Nil
  show ?case by simp
next
  case (Cons a pre)
  from Cons.prems have "act a c = c"
    by (cases a) (auto simp: isRead_def isRespond_def Hijack_def)
  with Cons show ?case by simp
qed

lemma interims_before_commit:
  "bw c = None \<Longrightarrow> list_all (\<lambda>a. \<not> isRead a \<and> \<not> isRespond a) pre \<Longrightarrow>
   interims (pre @ as) c = interims as c"
proof (induction pre)
  case Nil
  show ?case by simp
next
  case (Cons a pre)
  from Cons.prems have "act a c = c" "\<not> isRead a"
    by (cases a; auto simp: isRead_def isRespond_def Hijack_def)+
  with Cons show ?case by simp
qed

text \<open>
  Claim C6, amended.  After \<open>prepare\<close> has read a request, the interim response is owed
  exactly when the first value of the \<open>Expect\<close> header, in lower case, is
  \<open>100-continue\<close>.  When it is not owed, no read of the body writes to the stream and
  no call of the handler reaches the write of the interim response.  In any run of a
  handler at most one call reaches it.  When it is owed, nothing happens on the
  connection before the handler's first read if the handler has not committed a
  response before; that read is the one call that writes the interim response, and
  what it writes is \<open>HTTP/1.1 100 Continue\<close> and an empty line.  A read that finds a
  latched error, which a read after the commit of the response does, changes nothing
  and writes nothing.
\<close>
theorem interim_response_once:
  "(prepare ParseURL (newConn nc b) = (None, c) \<longrightarrow>
    write100Continue c =
      (\<exists>s. Get (Header (req c)) HeaderExpect = Some s \<and> ToLower s = ''100-continue'')) \<and>
   (\<not> write100Continue c \<longrightarrow>
    interims as c = 0 \<and> netConn (act (ARead n) c) = netConn c) \<and>
   interims as c \<le> 1 \<and>
   (write100Continue c \<and> requestErr c = None \<and> bw c = None \<and>
    list_all (\<lambda>a. \<not> isRead a \<and> \<not> isRespond a) pre \<longrightarrow>
    run pre c = c \<and> interims (pre @ ARead n # post) c = 1 \<and>
    (\<not> netConn_nil c \<and> budget (netConn c) = None \<longrightarrow>
     sent (netConn (act (ARead n) c)) = sent (netConn c) @ continue100)) \<and>
   (requestErr c \<noteq> None \<longrightarrow> act (ARead n) c = c)"
proof -
  have A: "write100Continue c =
      (\<exists>s. Get (Header (req c)) HeaderExpect = Some s \<and> ToLower s = ''100-continue'')"
    if "prepare ParseURL (newConn nc b) = (None, c)"
    using prepare_flag[OF that] by simp
  have B: "interims as c = 0 \<and> netConn (act (ARead n) c) = netConn c"
    if "\<not> write100Continue c"
    using that interims_none[of c as] Read_no_flag[of c n] by simp
  have D: "run pre c = c \<and> interims (pre @ ARead n # post) c = 1 \<and>
    (\<not> netConn_nil c \<and> budget (netConn c) = None \<longrightarrow>
     sent (netConn (act (ARead n) c)) = sent (netConn c) @ continue100)"
    if h: "write100Continue c \<and> requestErr c = None \<and> bw c = None \<and>
    list_all (\<lambda>a. \<not> isRead a \<and> \<not> isRespond a) pre"
  proof -
    from h have r: "run pre c = c" by (simp add: run_before_commit)
    from h Read_clears[of c n] have "\<not> write100Continue (act (ARead n) c)" by simp
    from interims_none[OF this, of post] h
    have "interims (ARead n # post) c = 1" by (simp add: isRead_def)
    with h have i: "interims (pre @ ARead n # post) c = 1"
      by (simp add: interims_before_commit)
    from h Read_flag[of c n] r i show ?thesis by simp
  qed
  from A B D interims_le[of as c] Read_refused[of c n] show ?thesis by blast
qed

text \<open>
  The examples: a request with \<open>Expect: 100-Continue\<close> and a body of five bytes, the
  connection after \<open>prepare\<close> has read it, a handler that reads the body before it
  commits a response and one that commits first.
\<close>
definition expectRequest :: string where
  "expectRequest = ''POST / HTTP/1.1'' @ CRLF @ ''Expect: 100-Continue'' @ CRLF @
     ''Content-Length: 5'' @ CRLF @ CRLF @ ''hello''"

definition expecting :: "string conn" where
  "expecting = snd (prepare Some (newConn (peer expectRequest) (rd expectRequest)))"

definition readFirst :: "string conn \<Rightarrow> action list" where
  "readFirst c = [ARead 10, ARead 10, ARespond 200 []]"

definition respondFirst :: "string conn \<Rightarrow> action list" where
  "respondFirst c = [ARespond 200 [], ARead 10]"

lemma expecting_ok:
  "prepare Some (newConn (peer expectRequest) (rd expectRequest)) = (None, expecting)"
proof -
  have "fst (prepare Some (newConn (peer expectRequest) (rd expectRequest))) = None"
    by code_simp
  then show ?thesis
    by (cases "prepare Some (newConn (peer expectRequest) (rd expectRequest))")
       (simp add: expecting_def)
qed

text \<open>
  Claim C6, an instance: the handler that reads first.  Its first read writes the
  interim response, and no other call of the run does.
\<close>
theorem interim_response_once_witness:
  "prepare Some (newConn (peer expectRequest) (rd expectRequest)) = (None, expecting) \<and>
   Get (Header (req expecting)) HeaderExpect = Some ''100-Continue'' \<and>
   ToLower ''100-Continue'' = ''100-continue'' \<and>
   write100Continue expecting \<and> requestErr expecting = None \<and> bw expecting = None \<and>
   interims (readFirst expecting) expecting = 1 \<and>
   sent (netConn (act (ARead 10) expecting)) = continue100"
proof -
  have g: "Get (Header (req expecting)) HeaderExpect = Some ''100-Continue''"
    "ToLower ''100-Continue'' = ''100-continue''" by code_simp+
  note t = interim_response_once[of Some "peer expectRequest" "rd expectRequest" expecting
      "readFirst expecting" 10 "[]" "[ARead 10, ARespond 200 []]"]
  from t expecting_ok g have w: "write100Continue expecting" by simp
  have e: "requestErr expecting = None" "bw expecting = None" "\<not> netConn_nil expecting"
    "budget (netConn expecting) = None" "sent (netConn expecting) = []"
    by code_simp+
  from t w e have "interims (readFirst expecting) expecting = 1"
    "sent (netConn (act (ARead 10) expecting)) = continue100"
    by (simp_all add: readFirst_def)
  with expecting_ok g w e show ?thesis by simp
qed

text \<open>
  Claim C6 as stated fails: the interim response is owed, but the handler commits its
  response before its first read of the body.  The read is refused with the
  response-started error, no call writes the interim response, and the stream carries
  the response alone.
\<close>
theorem read_after_commit_no_interim:
  "write100Continue expecting \<and>
   fst (snd (requestReader_Read (act (ARespond 200 []) expecting) 10)) =
     Some ErrResponseStarted \<and>
   interims (respondFirst expecting) expecting = 0 \<and>
   sent (snd (serveConnection Some (peer expectRequest) respondFirst)) =
     ''HTTP/1.1 200 OK'' @ CRLF @ ''Connection: close'' @ CRLF @ CRLF"
  by code_simp

end
